theory Spec2Isabelle
  imports Complex_Main
begin

section \<open>Physics-based orbital simulator\<close>

text \<open>
  A shallow embedding of the physics engine: \<^verbatim>\<open>vector3d.py\<close>, \<^verbatim>\<open>constants.py\<close>,
  \<^verbatim>\<open>gravity.py\<close>, \<^verbatim>\<open>kepler.py\<close> and \<^verbatim>\<open>simulator.py\<close>.

  Python floats are idealised as real numbers, so the theorems speak about exact
  arithmetic: rounding, infinities and NaN are outside the model. What the model
  does keep is the arithmetic fault that exact arithmetic also has: dividing a Python
  float by a Python float that is zero raises \<^verbatim>\<open>ZeroDivisionError\<close>. Divisions whose
  divisor is a numpy scalar (every result of \<^verbatim>\<open>np.sqrt\<close>, hence every magnitude) do not
  raise; the source guards the ones it cares about, and the model follows these guards.
  The range of a float is kept in one place, where a property depends on it: the
  \<^verbatim>\<open>OverflowError\<close> that \<^verbatim>\<open>**\<close> raises in \<^verbatim>\<open>magnitude\<close> during the lookup of orbital
  elements. The steps of the simulation are modelled without it, and what is proved of
  a step is stated for a step that returns.
\<close>

subsection \<open>vector3d.py\<close>

text \<open>
  The class \<^verbatim>\<open>Vector3D\<close>. The components are called \<open>vx\<close>, \<open>vy\<close>, \<open>vz\<close> here (the
  source calls them \<^verbatim>\<open>x\<close>, \<^verbatim>\<open>y\<close>, \<^verbatim>\<open>z\<close>), so that they do not capture the variables of
  the same names. No method of the source assigns to a component after construction, so a
  vector is a value.
\<close>

datatype Vector3D = Vector3D (vx: real) (vy: real) (vz: real)

definition vadd :: "Vector3D \<Rightarrow> Vector3D \<Rightarrow> Vector3D" where
  "vadd a b = Vector3D (vx a + vx b) (vy a + vy b) (vz a + vz b)"

definition vsub :: "Vector3D \<Rightarrow> Vector3D \<Rightarrow> Vector3D" where
  "vsub a b = Vector3D (vx a - vx b) (vy a - vy b) (vz a - vz b)"

definition vmul :: "Vector3D \<Rightarrow> real \<Rightarrow> Vector3D" where
  "vmul a scalar = Vector3D (vx a * scalar) (vy a * scalar) (vz a * scalar)"

definition vtruediv :: "Vector3D \<Rightarrow> real \<Rightarrow> Vector3D" where
  "vtruediv a scalar = Vector3D (vx a / scalar) (vy a / scalar) (vz a / scalar)"

definition magnitude :: "Vector3D \<Rightarrow> real" where
  "magnitude a = sqrt ((vx a)\<^sup>2 + (vy a)\<^sup>2 + (vz a)\<^sup>2)"

definition normalize_vec :: "Vector3D \<Rightarrow> Vector3D" where
  "normalize_vec a =
     (let mag = magnitude a
      in if mag = 0 then Vector3D 0 0 0 else vtruediv a mag)"

definition dot :: "Vector3D \<Rightarrow> Vector3D \<Rightarrow> real" where
  "dot a b = vx a * vx b + vy a * vy b + vz a * vz b"

definition cross :: "Vector3D \<Rightarrow> Vector3D \<Rightarrow> Vector3D" where
  "cross a b = Vector3D (vy a * vz b - vz a * vy b)
                        (vz a * vx b - vx a * vz b)
                        (vx a * vy b - vy a * vx b)"

subsection \<open>constants.py\<close>

definition G :: real where
  "G = 667430 / 10 ^ 16"

definition SOLAR_MASS :: real where
  "SOLAR_MASS = 1989 * 10 ^ 27"

definition AU :: real where
  "AU = 1496 * 10 ^ 8"


subsection \<open>gravity.py\<close>

text \<open>
  The class \<^verbatim>\<open>CelestialBody\<close>. An object of the class is mutable and is compared by
  identity (\<^verbatim>\<open>body is self\<close>), so bodies live in a store and are named by their address.
\<close>

record CelestialBody =
  name :: string
  mass :: real
  position :: Vector3D
  velocity :: Vector3D
  radius :: real
  color :: string
  trajectory :: "Vector3D list"
  acceleration :: Vector3D

definition new_body ::
  "string \<Rightarrow> real \<Rightarrow> Vector3D \<Rightarrow> Vector3D \<Rightarrow> real \<Rightarrow> string \<Rightarrow> CelestialBody" where
  "new_body nm m pos vel rad col =
     \<lparr>name = nm, mass = m, position = pos, velocity = vel, radius = rad, color = col,
      trajectory = [], acceleration = Vector3D 0 0 0\<rparr>"

definition calculate_gravitational_force :: "CelestialBody \<Rightarrow> CelestialBody \<Rightarrow> Vector3D" where
  "calculate_gravitational_force self other =
     (let r_vector = vsub (position other) (position self);
          r = magnitude r_vector
      in if r < 1 / 10 ^ 6 then Vector3D 0 0 0
         else let r_hat = normalize_vec r_vector;
                  force_magnitude = G * mass self * mass other / (r * r)
              in vmul r_hat force_magnitude)"


text \<open>
  The exceptions the engine can raise. \<^verbatim>\<open>total_force / self.mass\<close> divides Python floats
  (\<^verbatim>\<open>Vector3D.__init__\<close> and \<^verbatim>\<open>CelestialBody.__init__\<close> convert with \<^verbatim>\<open>float\<close>), so a
  body of mass zero raises \<^verbatim>\<open>ZeroDivisionError\<close>; \<^verbatim>\<open>list.pop(0)\<close> raises
  \<^verbatim>\<open>IndexError\<close> on an empty list; a missing dictionary key raises \<^verbatim>\<open>KeyError\<close>;
  \<^verbatim>\<open>self.x**2\<close> on a Python float raises \<^verbatim>\<open>OverflowError\<close> when the square is beyond the
  range of a float.
\<close>

datatype error = ZeroDivisionError | IndexError | KeyError string | OverflowError

type_synonym ref = nat

type_synonym store = "ref \<rightharpoonup> CelestialBody"

definition deref :: "store \<Rightarrow> ref \<Rightarrow> CelestialBody" where
  "deref h r = the (h r)"

text \<open>The loop of \<^verbatim>\<open>calculate_acceleration\<close>, with \<^verbatim>\<open>total_force\<close> as the last argument.\<close>

fun sum_forces :: "store \<Rightarrow> ref \<Rightarrow> ref list \<Rightarrow> Vector3D \<Rightarrow> Vector3D" where
  "sum_forces h self [] total_force = total_force"
| "sum_forces h self (body # rest) total_force =
     (if body = self then sum_forces h self rest total_force
      else sum_forces h self rest
             (vadd total_force (calculate_gravitational_force (deref h self) (deref h body))))"

definition calculate_acceleration ::
  "store \<Rightarrow> ref \<Rightarrow> ref list \<Rightarrow> error + (Vector3D \<times> store)" where
  "calculate_acceleration h self bs =
     (let total_force = sum_forces h self bs (Vector3D 0 0 0)
      in if mass (deref h self) = 0 then Inl ZeroDivisionError
         else let acc = vtruediv total_force (mass (deref h self))
              in Inr (acc, h(self \<mapsto> (deref h self)\<lparr>acceleration := acc\<rparr>)))"

record body_dict =
  d_name :: string
  d_mass :: real
  d_position :: Vector3D
  d_velocity :: Vector3D
  d_radius :: real
  d_color :: string
  d_acceleration :: Vector3D

definition to_dict :: "CelestialBody \<Rightarrow> body_dict" where
  "to_dict b =
     \<lparr>d_name = name b, d_mass = mass b, d_position = position b, d_velocity = velocity b,
      d_radius = radius b, d_color = color b, d_acceleration = acceleration b\<rparr>"

definition create_sun :: CelestialBody where
  "create_sun =
     new_body ''Sun'' SOLAR_MASS (Vector3D 0 0 0) (Vector3D 0 0 0) (696 * 10 ^ 6) ''#FFD700''"

subsection \<open>kepler.py\<close>

text \<open>
  \<^verbatim>\<open>np.radians\<close>, \<^verbatim>\<open>np.degrees\<close> and \<^verbatim>\<open>np.arctan2\<close> belong to numpy, not to the
  repository; they are written out from numpy's documentation.
\<close>

definition radians :: "real \<Rightarrow> real" where
  "radians d = d * pi / 180"

definition degrees :: "real \<Rightarrow> real" where
  "degrees r = r * 180 / pi"

definition arctan2 :: "real \<Rightarrow> real \<Rightarrow> real" where
  "arctan2 y1 x1 =
     (if 0 < x1 then arctan (y1 / x1)
      else if x1 < 0 then (if 0 \<le> y1 then arctan (y1 / x1) + pi else arctan (y1 / x1) - pi)
      else if 0 < y1 then pi / 2
      else if y1 < 0 then - (pi / 2)
      else 0)"

text \<open>A float that may be \<^verbatim>\<open>float('inf')\<close>: the period of an unbound orbit.\<close>

datatype xfloat = Finite real | Infinity

record orbital_elements =
  semi_major_axis :: real
  eccentricity :: real
  inclination :: real
  longitude_of_ascending_node :: real
  argument_of_periapsis :: real
  true_anomaly :: real
  period :: xfloat
  periapsis :: "real option"
  apoapsis :: "real option"

text \<open>
  The angles of \<^verbatim>\<open>calculate_orbital_elements\<close> in radians, as the source computes them
  before the dictionary is built: \<^verbatim>\<open>i\<close>, \<^verbatim>\<open>Omega\<close>, \<^verbatim>\<open>omega\<close> and \<^verbatim>\<open>nu\<close>.
\<close>

definition h_vector_of :: "Vector3D \<Rightarrow> Vector3D \<Rightarrow> Vector3D" where
  "h_vector_of pos vel = cross pos vel"

definition n_vector_of :: "Vector3D \<Rightarrow> Vector3D \<Rightarrow> Vector3D" where
  "n_vector_of pos vel = cross (Vector3D 0 0 1) (h_vector_of pos vel)"

definition e_vector_of :: "Vector3D \<Rightarrow> Vector3D \<Rightarrow> real \<Rightarrow> Vector3D" where
  "e_vector_of pos vel mu =
     vsub (vtruediv (cross vel (h_vector_of pos vel)) mu) (normalize_vec pos)"

definition inclination_rad :: "Vector3D \<Rightarrow> Vector3D \<Rightarrow> real" where
  "inclination_rad pos vel =
     (let h_vector = h_vector_of pos vel; h = magnitude h_vector
      in if h > 0 then arccos (vz h_vector / h) else 0)"

definition Omega_rad :: "Vector3D \<Rightarrow> Vector3D \<Rightarrow> real" where
  "Omega_rad pos vel =
     (let n_vector = n_vector_of pos vel; n = magnitude n_vector
      in if n > 0
         then (let Omega = arccos (vx n_vector / n)
               in if vy n_vector < 0 then 2 * pi - Omega else Omega)
         else 0)"

definition omega_rad :: "Vector3D \<Rightarrow> Vector3D \<Rightarrow> real \<Rightarrow> real" where
  "omega_rad pos vel mu =
     (let n_vector = n_vector_of pos vel; n = magnitude n_vector;
          e_vector = e_vector_of pos vel mu; e = magnitude e_vector
      in if n > 0 \<and> e > 0
         then (let omega = arccos (dot n_vector e_vector / (n * e))
               in if vz e_vector < 0 then 2 * pi - omega else omega)
         else 0)"

definition nu_rad :: "Vector3D \<Rightarrow> Vector3D \<Rightarrow> real \<Rightarrow> real" where
  "nu_rad pos vel mu =
     (let r = magnitude pos; e_vector = e_vector_of pos vel mu; e = magnitude e_vector
      in if e > 0
         then (let nu = arccos (dot e_vector pos / (e * r))
               in if dot pos vel < 0 then 2 * pi - nu else nu)
         else 0)"

text \<open>
  \<^verbatim>\<open>calculate_orbital_elements\<close>. The one division by a Python float is
  \<^verbatim>\<open>velocity.cross(h_vector) / mu\<close>, which raises when \<^verbatim>\<open>mu\<close> is zero; the other
  divisors are numpy scalars.
\<close>

definition calculate_orbital_elements ::
  "Vector3D \<Rightarrow> Vector3D \<Rightarrow> real \<Rightarrow> error + orbital_elements" where
  "calculate_orbital_elements pos vel sun_mass =
     (let mu = G * sun_mass;
          r = magnitude pos;
          v = magnitude vel;
          energy = 0.5 * v * v - mu / r;
          a = (if energy \<ge> 0 then - mu / (2 * energy) else - mu / (2 * energy))
      in if mu = 0 then Inl ZeroDivisionError
         else let e = magnitude (e_vector_of pos vel mu);
                  i = inclination_rad pos vel;
                  Omega = Omega_rad pos vel;
                  omega = omega_rad pos vel mu;
                  nu = nu_rad pos vel mu;
                  per = (if a > 0 then Finite (2 * pi * sqrt (a ^ 3 / mu)) else Infinity)
              in Inr \<lparr>semi_major_axis = a,
                      eccentricity = e,
                      inclination = degrees i,
                      longitude_of_ascending_node = degrees Omega,
                      argument_of_periapsis = degrees omega,
                      true_anomaly = degrees nu,
                      period = per,
                      periapsis = (if e < 1 then Some (a * (1 - e)) else None),
                      apoapsis = (if e < 1 then Some (a * (1 + e)) else None)\<rparr>)"

text \<open>
  \<^verbatim>\<open>kepler_equation_solver\<close>: the \<^verbatim>\<open>for\<close> loop over \<^verbatim>\<open>range(max_iterations)\<close>, with the
  number of iterations left as the first argument.
\<close>

fun kepler_loop :: "nat \<Rightarrow> real \<Rightarrow> real \<Rightarrow> real \<Rightarrow> real \<Rightarrow> real" where
  "kepler_loop 0 mean_anomaly ecc tolerance E = E"
| "kepler_loop (Suc k) mean_anomaly ecc tolerance E =
     (let E_new = mean_anomaly + ecc * sin E
      in if \<bar>E_new - E\<bar> < tolerance then E_new
         else kepler_loop k mean_anomaly ecc tolerance E_new)"

definition kepler_equation_solver :: "real \<Rightarrow> real \<Rightarrow> real \<Rightarrow> nat \<Rightarrow> real" where
  "kepler_equation_solver mean_anomaly ecc tolerance max_iterations =
     (if ecc < 1 / 10 ^ 6 then mean_anomaly
      else kepler_loop max_iterations mean_anomaly ecc tolerance mean_anomaly)"

definition lookup :: "(string \<rightharpoonup> real) \<Rightarrow> string \<Rightarrow> error + real" where
  "lookup d k = (case d k of None \<Rightarrow> Inl (KeyError k) | Some v \<Rightarrow> Inr v)"

text \<open>
  \<^verbatim>\<open>predict_position_from_elements\<close>. The dictionary is read in the order of the source,
  so the first missing key is the one reported. Its entries are taken to be Python
  numbers, for which \<^verbatim>\<open>mu / (a**3)\<close> raises when \<^verbatim>\<open>a\<close> is zero.
\<close>

definition predict_position_from_elements ::
  "(string \<rightharpoonup> real) \<Rightarrow> real \<Rightarrow> real \<Rightarrow> error + Vector3D" where
  "predict_position_from_elements elements t sun_mass =
     (case lookup elements ''semi_major_axis'' of Inl err \<Rightarrow> Inl err | Inr a \<Rightarrow>
      case lookup elements ''eccentricity'' of Inl err \<Rightarrow> Inl err | Inr e \<Rightarrow>
      case lookup elements ''inclination'' of Inl err \<Rightarrow> Inl err | Inr i_deg \<Rightarrow>
      case lookup elements ''longitude_of_ascending_node'' of Inl err \<Rightarrow> Inl err | Inr Omega_deg \<Rightarrow>
      case lookup elements ''argument_of_periapsis'' of Inl err \<Rightarrow> Inl err | Inr omega_deg \<Rightarrow>
        (let i = radians i_deg;
             Omega = radians Omega_deg;
             omega = radians omega_deg;
             mu = G * sun_mass
         in if a ^ 3 = 0 then Inl ZeroDivisionError
            else let n = sqrt (mu / (a ^ 3));
                     M = n * t;
                     E = kepler_equation_solver M e (1 / 10 ^ 10) 100;
                     nu = 2 * arctan2 (sqrt (1 + e) * sin (E / 2)) (sqrt (1 - e) * cos (E / 2));
                     r = a * (1 - e * cos E);
                     x_orbital = r * cos nu;
                     y_orbital = r * sin nu
                 in Inr (Vector3D (x_orbital * cos Omega - y_orbital * sin Omega)
                                  (x_orbital * sin Omega + y_orbital * cos Omega)
                                  (r * sin nu * sin i))))"

subsection \<open>simulator.py\<close>

text \<open>
  One entry of \<^verbatim>\<open>trajectory_history\<close>: the dictionary built by \<^verbatim>\<open>_store_state\<close>.
\<close>

record snapshot =
  snap_time :: real
  snap_bodies :: "body_dict list"

text \<open>
  The class \<^verbatim>\<open>OrbitalSimulator\<close>. \<open>bodies\<close> and \<open>sun\<close> hold references into
  \<open>objects\<close>, the store of the \<^verbatim>\<open>CelestialBody\<close> objects; \<open>next_ref\<close> is the next unused
  address, from which a constructor call takes the address of the new object.
\<close>

record OrbitalSimulator =
  time_step :: real
  speed_multiplier :: real
  bodies :: "ref list"
  sun :: ref
  time :: real
  is_running :: bool
  trajectory_history :: "snapshot list"
  max_trajectory_points :: nat
  objects :: store
  next_ref :: ref

definition init_simulator :: "real \<Rightarrow> real \<Rightarrow> OrbitalSimulator" where
  "init_simulator ts sm =
     \<lparr>time_step = ts, speed_multiplier = sm, bodies = [0], sun = 0, time = 0,
      is_running = False, trajectory_history = [], max_trajectory_points = 1000,
      objects = [0 \<mapsto> create_sun], next_ref = 1\<rparr>"

definition add_body ::
  "OrbitalSimulator \<Rightarrow> string \<Rightarrow> real \<Rightarrow> Vector3D \<Rightarrow> Vector3D \<Rightarrow> real \<Rightarrow> string
     \<Rightarrow> ref \<times> OrbitalSimulator" where
  "add_body s nm m pos vel rad col =
     (let body = next_ref s
      in (body, s\<lparr>objects := (objects s)(body \<mapsto> new_body nm m pos vel rad col),
                   next_ref := Suc body,
                   bodies := bodies s @ [body]\<rparr>))"

definition add_body_from_parameters ::
  "OrbitalSimulator \<Rightarrow> string \<Rightarrow> real \<Rightarrow> real \<Rightarrow> real \<Rightarrow> real \<Rightarrow> real \<Rightarrow> string
     \<Rightarrow> ref \<times> OrbitalSimulator" where
  "add_body_from_parameters s nm m distance_from_sun initial_velocity angle rad col =
     (let distance_m = distance_from_sun * AU;
          angle_rad = radians angle;
          pos = Vector3D (distance_m * cos angle_rad) (distance_m * sin angle_rad) 0;
          velocity_angle = angle_rad + pi / 2;
          vel = Vector3D (initial_velocity * cos velocity_angle)
                         (initial_velocity * sin velocity_angle) 0
      in add_body s nm m pos vel rad col)"

text \<open>
  The first loop of \<^verbatim>\<open>step\<close>. The loops run over \<^verbatim>\<open>self.bodies\<close>, here the last list
  argument, while every call of \<^verbatim>\<open>calculate_acceleration\<close> receives the whole of
  \<^verbatim>\<open>self.bodies\<close>, here \<open>bs\<close>. An exception leaves the loop with the store as it is
  at that moment.
\<close>

fun accel_loop :: "ref \<Rightarrow> ref list \<Rightarrow> store \<Rightarrow> ref list \<Rightarrow> error option \<times> store" where
  "accel_loop sn bs h [] = (None, h)"
| "accel_loop sn bs h (body # rest) =
     (if body = sn then accel_loop sn bs h rest
      else case calculate_acceleration h body bs of
             Inl err \<Rightarrow> (Some err, h)
           | Inr (acc, h') \<Rightarrow> accel_loop sn bs h' rest)"

text \<open>
  The body of the second loop, in two parts: \<open>advance_position\<close> is the half-step velocity
  and the assignment to \<^verbatim>\<open>body.position\<close>; \<open>verlet_body\<close> goes on with the new
  acceleration, the velocity and the trajectory.
\<close>

definition half_velocity_of :: "real \<Rightarrow> CelestialBody \<Rightarrow> Vector3D" where
  "half_velocity_of dt b = vadd (velocity b) (vmul (acceleration b) (dt / 2))"

definition advance_position :: "real \<Rightarrow> store \<Rightarrow> ref \<Rightarrow> store" where
  "advance_position dt h body =
     h(body \<mapsto> (deref h body)
         \<lparr>position := vadd (position (deref h body))
                           (vmul (half_velocity_of dt (deref h body)) dt)\<rparr>)"

definition verlet_body ::
  "real \<Rightarrow> nat \<Rightarrow> ref list \<Rightarrow> store \<Rightarrow> ref \<Rightarrow> error option \<times> store" where
  "verlet_body dt maxp bs h body =
     (let half_velocity = half_velocity_of dt (deref h body);
          h1 = advance_position dt h body
      in case calculate_acceleration h1 body bs of
           Inl err \<Rightarrow> (Some err, h1)
         | Inr (new_acceleration, h2) \<Rightarrow>
             (let h3 = h2(body \<mapsto> (deref h2 body)
                         \<lparr>velocity := vadd half_velocity (vmul new_acceleration (dt / 2))\<rparr>);
                  h4 = h3(body \<mapsto> (deref h3 body)\<lparr>acceleration := new_acceleration\<rparr>);
                  b = deref h4 body;
                  p = Vector3D (vx (position b)) (vy (position b)) (vz (position b))
              in if length (trajectory b) < maxp
                 then (None, h4(body \<mapsto> b\<lparr>trajectory := trajectory b @ [p]\<rparr>))
                 else (case trajectory b of
                         [] \<Rightarrow> (Some IndexError, h4)
                       | oldest # kept \<Rightarrow>
                           (None, h4(body \<mapsto> b\<lparr>trajectory := kept @ [p]\<rparr>)))))"

fun verlet_loop ::
  "real \<Rightarrow> nat \<Rightarrow> ref \<Rightarrow> ref list \<Rightarrow> store \<Rightarrow> ref list \<Rightarrow> error option \<times> store" where
  "verlet_loop dt maxp sn bs h [] = (None, h)"
| "verlet_loop dt maxp sn bs h (body # rest) =
     (if body = sn then verlet_loop dt maxp sn bs h rest
      else case verlet_body dt maxp bs h body of
             (Some err, h') \<Rightarrow> (Some err, h')
           | (None, h') \<Rightarrow> verlet_loop dt maxp sn bs h' rest)"

definition store_state :: "OrbitalSimulator \<Rightarrow> error option \<times> OrbitalSimulator" where
  "store_state s =
     (let state = \<lparr>snap_time = time s,
                   snap_bodies = map (\<lambda>body. to_dict (deref (objects s) body))
                                     (filter (\<lambda>body. body \<noteq> sun s) (bodies s))\<rparr>
      in if length (trajectory_history s) < max_trajectory_points s
         then (None, s\<lparr>trajectory_history := trajectory_history s @ [state]\<rparr>)
         else (case trajectory_history s of
                 [] \<Rightarrow> (Some IndexError, s)
               | oldest # kept \<Rightarrow> (None, s\<lparr>trajectory_history := kept @ [state]\<rparr>)))"

text \<open>
  \<^verbatim>\<open>step\<close> returns nothing; the model returns the exception that left it, if any,
  and the simulator as the call leaves it.
\<close>

definition step :: "OrbitalSimulator \<Rightarrow> error option \<times> OrbitalSimulator" where
  "step s =
     (if \<not> is_running s then (None, s)
      else let dt = time_step s * speed_multiplier s
           in case accel_loop (sun s) (bodies s) (objects s) (bodies s) of
                (Some err, h1) \<Rightarrow> (Some err, s\<lparr>objects := h1\<rparr>)
              | (None, h1) \<Rightarrow>
                  (case verlet_loop dt (max_trajectory_points s) (sun s) (bodies s) h1 (bodies s) of
                     (Some err, h2) \<Rightarrow> (Some err, s\<lparr>objects := h2\<rparr>)
                   | (None, h2) \<Rightarrow> store_state (s\<lparr>objects := h2, time := time s + dt\<rparr>)))"

definition start :: "OrbitalSimulator \<Rightarrow> OrbitalSimulator" where
  "start s = s\<lparr>is_running := True\<rparr>"

definition stop :: "OrbitalSimulator \<Rightarrow> OrbitalSimulator" where
  "stop s = s\<lparr>is_running := False\<rparr>"

text \<open>The loop of \<^verbatim>\<open>reset\<close>: \<^verbatim>\<open>body.trajectory = []\<close> for each body of the new list.\<close>

fun clear_trajectories :: "store \<Rightarrow> ref list \<Rightarrow> store" where
  "clear_trajectories h [] = h"
| "clear_trajectories h (body # rest) =
     clear_trajectories (h(body \<mapsto> (deref h body)\<lparr>trajectory := []\<rparr>)) rest"

definition reset :: "OrbitalSimulator \<Rightarrow> OrbitalSimulator" where
  "reset s =
     (let s1 = s\<lparr>time := 0, is_running := False, bodies := [sun s], trajectory_history := []\<rparr>
      in s1\<lparr>objects := clear_trajectories (objects s1) (bodies s1)\<rparr>)"





text \<open>
  The states a simulator can be in: constructed, then driven by any sequence of the
  operations that change it. An operation that raises leaves a state too.
\<close>

inductive reachable :: "OrbitalSimulator \<Rightarrow> bool" where
  r_init: "reachable (init_simulator ts sm)"
| r_add_body: "reachable s \<Longrightarrow> reachable (snd (add_body s nm m pos vel rad col))"
| r_add_body_from_parameters:
    "reachable s \<Longrightarrow> reachable (snd (add_body_from_parameters s nm m d v0 ang rad col))"
| r_start: "reachable s \<Longrightarrow> reachable (start s)"
| r_stop: "reachable s \<Longrightarrow> reachable (stop s)"
| r_reset: "reachable s \<Longrightarrow> reachable (reset s)"
| r_step: "reachable s \<Longrightarrow> reachable (snd (step s))"

text \<open>\<open>steps k s\<close> is the simulator after \<open>k\<close> calls of \<^verbatim>\<open>step\<close>.\<close>

fun steps :: "nat \<Rightarrow> OrbitalSimulator \<Rightarrow> OrbitalSimulator" where
  "steps 0 s = s"
| "steps (Suc k) s = snd (step (steps k s))"

text \<open>
  What holds of every simulator the operations can produce: the central body is first in
  the list, objects occur once in it, the Sun is as \<^verbatim>\<open>create_sun\<close> built it, and the
  buffers are within \<^verbatim>\<open>max_trajectory_points\<close>.
\<close>

definition anchored :: "OrbitalSimulator \<Rightarrow> bool" where
  "anchored s \<longleftrightarrow>
     bodies s \<noteq> [] \<and> hd (bodies s) = sun s \<and> distinct (bodies s) \<and>
     (\<forall>b \<in> set (bodies s). b < next_ref s) \<and>
     objects s (sun s) = Some create_sun \<and>
     max_trajectory_points s = 1000 \<and>
     (\<forall>b \<in> set (bodies s). length (trajectory (deref (objects s) b)) \<le> 1000) \<and>
     length (trajectory_history s) \<le> 1000"

text \<open>
  A simulator to evaluate the operations on: constructed with a time step of one second,
  one body of one kilogram added at rest one metre from the Sun, and started.
\<close>

definition demo_simulator :: OrbitalSimulator where
  "demo_simulator =
     start (snd (add_body (init_simulator 1 1) ''Probe'' 1 (Vector3D 1 0 0) (Vector3D 0 0 0)
                   0 ''#ffffff''))"

text \<open>
  A dictionary of elements to evaluate \<^verbatim>\<open>predict_position_from_elements\<close> on: a circular
  orbit of radius one in the reference plane, with the ascending node at 90 degrees.
\<close>

definition demo_elements :: "string \<rightharpoonup> real" where
  "demo_elements =
     [''semi_major_axis'' \<mapsto> 1, ''eccentricity'' \<mapsto> 0, ''inclination'' \<mapsto> 0,
      ''longitude_of_ascending_node'' \<mapsto> 90, ''argument_of_periapsis'' \<mapsto> 0]"

text \<open>
  The body of \<open>demo_simulator\<close>, and the store after the first loop of a step of
  \<open>demo_simulator\<close>: the body carries the acceleration computed at its starting position.
\<close>

definition demo_probe :: CelestialBody where
  "demo_probe = new_body ''Probe'' 1 (Vector3D 1 0 0) (Vector3D 0 0 0) 0 ''#ffffff''"

definition demo_store1 :: store where
  "demo_store1 =
     (objects demo_simulator)
       (1 \<mapsto> demo_probe\<lparr>acceleration := Vector3D (- (G * SOLAR_MASS)) 0 0\<rparr>)"

text \<open>
  A simulator with a body of mass zero: as \<open>demo_simulator\<close>, with a second body
  \<^verbatim>\<open>Z\<close> of mass 0 added two metres from the Sun before the start.
\<close>

definition zero_mass_simulator :: OrbitalSimulator where
  "zero_mass_simulator =
     start (snd (add_body
       (snd (add_body (init_simulator 1 1) ''Probe'' 1 (Vector3D 1 0 0) (Vector3D 0 0 0)
               0 ''#ffffff''))
       ''Z'' 0 (Vector3D 2 0 0) (Vector3D 0 0 0) 0 ''#ffffff''))"


section \<open>Properties\<close>

subsection \<open>Vectors\<close>

lemma magnitude_nonneg: "0 \<le> magnitude a"
  by (simp add: magnitude_def)

lemma magnitude_zero_iff: "magnitude a = 0 \<longleftrightarrow> a = Vector3D 0 0 0"
proof -
  have "(vx a)\<^sup>2 + (vy a)\<^sup>2 + (vz a)\<^sup>2 = 0 \<longleftrightarrow> vx a = 0 \<and> vy a = 0 \<and> vz a = 0"
    by (smt (verit) power2_less_0 sum_power2_eq_zero_iff)
  then show ?thesis
    by (cases a) (simp add: magnitude_def)
qed

lemma magnitude_vtruediv: "0 < c \<Longrightarrow> magnitude (vtruediv a c) = magnitude a / c"
proof -
  assume c: "0 < c"
  have "(vx a / c)\<^sup>2 + (vy a / c)\<^sup>2 + (vz a / c)\<^sup>2 = ((vx a)\<^sup>2 + (vy a)\<^sup>2 + (vz a)\<^sup>2) / c\<^sup>2"
    by (simp add: power_divide add_divide_distrib)
  then show ?thesis
    using c by (simp add: magnitude_def vtruediv_def real_sqrt_divide)
qed

lemma magnitude_axis:
  "magnitude (Vector3D c 0 0) = \<bar>c\<bar>" "magnitude (Vector3D 0 c 0) = \<bar>c\<bar>"
  "magnitude (Vector3D 0 0 c) = \<bar>c\<bar>"
  by (simp_all add: magnitude_def)

text \<open>
  C8. \<^verbatim>\<open>normalize_vec\<close> of a vector of non-zero magnitude has magnitude exactly 1 (in exact
  real arithmetic), and \<^verbatim>\<open>normalize_vec\<close> of the zero vector is the zero vector: the branch
  \<^verbatim>\<open>mag == 0\<close> returns it instead of dividing.
\<close>

theorem normalize_unit_or_zero:
  "(magnitude a \<noteq> 0 \<longrightarrow> magnitude (normalize_vec a) = 1) \<and>
   normalize_vec (Vector3D 0 0 0) = Vector3D 0 0 0"
proof -
  have "magnitude (normalize_vec a) = 1" if nz: "magnitude a \<noteq> 0"
  proof -
    have pos: "0 < magnitude a"
      using nz magnitude_nonneg [of a] by linarith
    show ?thesis
      using nz pos by (simp add: normalize_vec_def Let_def magnitude_vtruediv)
  qed
  moreover have "normalize_vec (Vector3D 0 0 0) = Vector3D 0 0 0"
    by (simp add: normalize_vec_def magnitude_def)
  ultimately show ?thesis by blast
qed

lemma magnitude_3_4_0: "magnitude (Vector3D 3 4 0) = 5"
proof -
  have "magnitude (Vector3D 3 4 0) = sqrt (5\<^sup>2)"
    by (simp add: magnitude_def)
  then show ?thesis by simp
qed

theorem normalize_unit_or_zero_witness:
  "magnitude (Vector3D 3 4 0) \<noteq> 0 \<and> magnitude (normalize_vec (Vector3D 3 4 0)) = 1 \<and>
   normalize_vec (Vector3D 3 4 0) = Vector3D (3 / 5) (4 / 5) 0"
  using normalize_unit_or_zero [of "Vector3D 3 4 0"]
  by (simp add: magnitude_3_4_0 normalize_vec_def vtruediv_def)


subsection \<open>The store\<close>

lemma deref_upd: "deref (h(r \<mapsto> b)) x = (if x = r then b else deref h x)"
  by (simp add: deref_def)

lemma calculate_acceleration_Inr:
  "calculate_acceleration h self bs = Inr (acc, h') \<Longrightarrow>
     mass (deref h self) \<noteq> 0 \<and>
     acc = vtruediv (sum_forces h self bs (Vector3D 0 0 0)) (mass (deref h self)) \<and>
     h' = h(self \<mapsto> (deref h self)\<lparr>acceleration := acc\<rparr>)"
  by (auto simp: calculate_acceleration_def Let_def split: if_splits)

lemma calculate_acceleration_Inl:
  "calculate_acceleration h self bs = Inl err \<longleftrightarrow>
     mass (deref h self) = 0 \<and> err = ZeroDivisionError"
  by (auto simp: calculate_acceleration_def Let_def)

lemma calculate_acceleration_ok:
  "mass (deref h self) \<noteq> 0 \<Longrightarrow>
     calculate_acceleration h self bs =
       Inr (vtruediv (sum_forces h self bs (Vector3D 0 0 0)) (mass (deref h self)),
            h(self \<mapsto> (deref h self)
                 \<lparr>acceleration := vtruediv (sum_forces h self bs (Vector3D 0 0 0)) (mass (deref h self))\<rparr>))"
  by (simp add: calculate_acceleration_def Let_def)

text \<open>The forces depend on the positions and masses in the store, nothing else.\<close>

lemma sum_forces_cong:
  "(\<And>x. position (deref h' x) = position (deref h x)) \<Longrightarrow>
   (\<And>x. mass (deref h' x) = mass (deref h x)) \<Longrightarrow>
   sum_forces h' self bs tf = sum_forces h self bs tf"
  by (induction bs arbitrary: tf) (simp_all add: calculate_gravitational_force_def Let_def)

subsection \<open>The first loop\<close>

lemma accel_loop_frame:
  "accel_loop sn bs h xs = (err, h') \<Longrightarrow>
     (deref h' x)\<lparr>acceleration := z\<rparr> = (deref h x)\<lparr>acceleration := z\<rparr>"
proof (induction xs arbitrary: h)
  case Nil
  then show ?case by simp
next
  case (Cons body rest)
  show ?case
  proof (cases "body = sn")
    case True
    with Cons show ?thesis by simp
  next
    case False
    show ?thesis
    proof (cases "calculate_acceleration h body bs")
      case (Inl e)
      with Cons.prems False show ?thesis by simp
    next
      case (Inr p)
      obtain acc h1 where p: "p = (acc, h1)" by (cases p)
      from Inr p have h1: "h1 = h(body \<mapsto> (deref h body)\<lparr>acceleration := acc\<rparr>)"
        using calculate_acceleration_Inr by blast
      from Cons.prems False Inr p have "accel_loop sn bs h1 rest = (err, h')" by simp
      then have "(deref h' x)\<lparr>acceleration := z\<rparr> = (deref h1 x)\<lparr>acceleration := z\<rparr>"
        by (rule Cons.IH)
      then show ?thesis by (simp add: h1 deref_upd)
    qed
  qed
qed

lemma accel_loop_other:
  "accel_loop sn bs h xs = (err, h') \<Longrightarrow> x \<notin> set xs \<or> x = sn \<Longrightarrow> h' x = h x"
proof (induction xs arbitrary: h)
  case Nil
  then show ?case by simp
next
  case (Cons body rest)
  show ?case
  proof (cases "body = sn")
    case True
    with Cons show ?thesis by auto
  next
    case False
    show ?thesis
    proof (cases "calculate_acceleration h body bs")
      case (Inl e)
      with Cons.prems False show ?thesis by simp
    next
      case (Inr p)
      obtain acc h1 where p: "p = (acc, h1)" by (cases p)
      from Inr p have h1: "h1 = h(body \<mapsto> (deref h body)\<lparr>acceleration := acc\<rparr>)"
        using calculate_acceleration_Inr by blast
      from Cons.prems False Inr p have "accel_loop sn bs h1 rest = (err, h')" by simp
      moreover from Cons.prems(2) False have "x \<notin> set rest \<or> x = sn" "x \<noteq> body" by auto
      ultimately have "h' x = h1 x" using Cons.IH by blast
      with \<open>x \<noteq> body\<close> show ?thesis by (simp add: h1)
    qed
  qed
qed

lemma accel_loop_keeps:
  assumes "accel_loop sn bs h xs = (err, h')"
  shows "position (deref h' x) = position (deref h x)"
    and "velocity (deref h' x) = velocity (deref h x)"
    and "mass (deref h' x) = mass (deref h x)"
    and "name (deref h' x) = name (deref h x)"
    and "trajectory (deref h' x) = trajectory (deref h x)"
proof -
  have eq: "(deref h' x)\<lparr>acceleration := Vector3D 0 0 0\<rparr> = (deref h x)\<lparr>acceleration := Vector3D 0 0 0\<rparr>"
    using assms by (rule accel_loop_frame)
  from arg_cong [OF eq, of position] show "position (deref h' x) = position (deref h x)" by simp
  from arg_cong [OF eq, of velocity] show "velocity (deref h' x) = velocity (deref h x)" by simp
  from arg_cong [OF eq, of mass] show "mass (deref h' x) = mass (deref h x)" by simp
  from arg_cong [OF eq, of name] show "name (deref h' x) = name (deref h x)" by simp
  from arg_cong [OF eq, of trajectory] show "trajectory (deref h' x) = trajectory (deref h x)" by simp
qed


lemma accel_loop_ok:
  "(\<And>x. x \<in> set xs \<Longrightarrow> x \<noteq> sn \<Longrightarrow> mass (deref h x) \<noteq> 0) \<Longrightarrow>
     fst (accel_loop sn bs h xs) = None"
proof (induction xs arbitrary: h)
  case Nil
  then show ?case by simp
next
  case (Cons body rest)
  show ?case
  proof (cases "body = sn")
    case True
    with Cons show ?thesis by simp
  next
    case False
    with Cons.prems have m: "mass (deref h body) \<noteq> 0" by simp
    let ?acc = "vtruediv (sum_forces h body bs (Vector3D 0 0 0)) (mass (deref h body))"
    let ?h1 = "h(body \<mapsto> (deref h body)\<lparr>acceleration := ?acc\<rparr>)"
    have "fst (accel_loop sn bs ?h1 rest) = None"
      by (rule Cons.IH) (use Cons.prems m in \<open>auto simp: deref_def\<close>)
    with False m show ?thesis
      by (simp add: calculate_acceleration_ok)
  qed
qed

subsection \<open>The second loop\<close>

lemma advance_position_other: "x \<noteq> body \<Longrightarrow> advance_position dt h body x = h x"
  by (simp add: advance_position_def)

lemma deref_advance_position:
  "deref (advance_position dt h body) x =
     (if x = body
      then (deref h body)\<lparr>position := vadd (position (deref h body))
                                         (vmul (half_velocity_of dt (deref h body)) dt)\<rparr>
      else deref h x)"
  by (simp add: advance_position_def deref_upd)

lemma verlet_body_other:
  "verlet_body dt maxp bs h body = (err, h') \<Longrightarrow> x \<noteq> body \<Longrightarrow> h' x = h x"
  by (auto simp: verlet_body_def Let_def advance_position_other
           split: sum.splits prod.splits if_splits list.splits
           dest!: calculate_acceleration_Inr)

lemma verlet_body_keeps:
  assumes "verlet_body dt maxp bs h body = (err, h')"
  shows "mass (deref h' x) = mass (deref h x)" and "name (deref h' x) = name (deref h x)"
  using assms
  by (auto simp: verlet_body_def Let_def deref_advance_position deref_upd
           split: sum.splits prod.splits if_splits list.splits
           dest!: calculate_acceleration_Inr)

lemma verlet_body_trajectory:
  assumes "verlet_body dt maxp bs h body = (None, h')"
  shows "trajectory (deref h' body) =
           (if length (trajectory (deref h body)) < maxp
            then trajectory (deref h body) @ [position (deref h' body)]
            else tl (trajectory (deref h body)) @ [position (deref h' body)])"
    and "length (trajectory (deref h body)) < maxp \<or> trajectory (deref h body) \<noteq> []"
  using assms
  by (auto simp: verlet_body_def Let_def deref_advance_position deref_upd
           split: sum.splits prod.splits if_splits list.splits
           dest!: calculate_acceleration_Inr)

lemma verlet_body_trajectory_err:
  assumes "verlet_body dt maxp bs h body = (Some e, h')"
  shows "trajectory (deref h' x) = trajectory (deref h x)"
  using assms
  by (auto simp: verlet_body_def Let_def deref_advance_position deref_upd
           split: sum.splits prod.splits if_splits list.splits
           dest!: calculate_acceleration_Inr)

lemma verlet_body_ok:
  assumes "mass (deref h body) \<noteq> 0"
    and "length (trajectory (deref h body)) < maxp \<or> trajectory (deref h body) \<noteq> []"
  shows "fst (verlet_body dt maxp bs h body) = None"
  using assms
  by (auto simp: verlet_body_def Let_def deref_advance_position deref_upd
                 calculate_acceleration_ok
           split: list.splits)


lemma verlet_body_bound:
  assumes "verlet_body dt maxp bs h body = (err, h')"
    and "length (trajectory (deref h x)) \<le> maxp"
  shows "length (trajectory (deref h' x)) \<le> maxp"
proof (cases "x = body")
  case False
  with assms show ?thesis
    by (simp add: verlet_body_other deref_def)
next
  case True
  show ?thesis
  proof (cases err)
    case None
    with assms True verlet_body_trajectory [of dt maxp bs h body h'] show ?thesis
      by (cases "trajectory (deref h body)") (auto split: if_splits)
  next
    case (Some e)
    with assms show ?thesis
      by (simp add: verlet_body_trajectory_err)
  qed
qed

lemma verlet_loop_other:
  "verlet_loop dt maxp sn bs h xs = (err, h') \<Longrightarrow> x \<notin> set xs \<or> x = sn \<Longrightarrow> h' x = h x"
proof (induction xs arbitrary: h)
  case Nil
  then show ?case by simp
next
  case (Cons body rest)
  show ?case
  proof (cases "body = sn")
    case True
    with Cons show ?thesis by auto
  next
    case False
    obtain e1 h1 where vb: "verlet_body dt maxp bs h body = (e1, h1)"
      by (cases "verlet_body dt maxp bs h body")
    from Cons.prems(2) False have x: "x \<notin> set rest \<or> x = sn" "x \<noteq> body" by auto
    show ?thesis
    proof (cases e1)
      case (Some e)
      with Cons.prems(1) False vb have "h' = h1" by simp
      with vb x show ?thesis by (simp add: verlet_body_other)
    next
      case None
      with Cons.prems(1) False vb have "verlet_loop dt maxp sn bs h1 rest = (err, h')" by simp
      with x have "h' x = h1 x" using Cons.IH by blast
      with vb x show ?thesis by (simp add: verlet_body_other)
    qed
  qed
qed

lemma verlet_loop_keeps:
  "verlet_loop dt maxp sn bs h xs = (err, h') \<Longrightarrow>
     mass (deref h' x) = mass (deref h x) \<and> name (deref h' x) = name (deref h x)"
proof (induction xs arbitrary: h)
  case Nil
  then show ?case by simp
next
  case (Cons body rest)
  show ?case
  proof (cases "body = sn")
    case True
    with Cons show ?thesis by auto
  next
    case False
    obtain e1 h1 where vb: "verlet_body dt maxp bs h body = (e1, h1)"
      by (cases "verlet_body dt maxp bs h body")
    show ?thesis
    proof (cases e1)
      case (Some e)
      with Cons.prems(1) False vb have "h' = h1" by simp
      with vb show ?thesis by (simp add: verlet_body_keeps)
    next
      case None
      with Cons.prems(1) False vb have "verlet_loop dt maxp sn bs h1 rest = (err, h')" by simp
      then have "mass (deref h' x) = mass (deref h1 x) \<and> name (deref h' x) = name (deref h1 x)"
        by (rule Cons.IH)
      with vb show ?thesis by (simp add: verlet_body_keeps)
    qed
  qed
qed

lemma verlet_loop_bound:
  "verlet_loop dt maxp sn bs h xs = (err, h') \<Longrightarrow>
   length (trajectory (deref h x)) \<le> maxp \<Longrightarrow> length (trajectory (deref h' x)) \<le> maxp"
proof (induction xs arbitrary: h)
  case Nil
  then show ?case by simp
next
  case (Cons body rest)
  show ?case
  proof (cases "body = sn")
    case True
    with Cons show ?thesis by auto
  next
    case False
    obtain e1 h1 where vb: "verlet_body dt maxp bs h body = (e1, h1)"
      by (cases "verlet_body dt maxp bs h body")
    from vb Cons.prems(2) have b1: "length (trajectory (deref h1 x)) \<le> maxp"
      by (rule verlet_body_bound)
    show ?thesis
    proof (cases e1)
      case (Some e)
      with Cons.prems(1) False vb have "h' = h1" by simp
      with b1 show ?thesis by simp
    next
      case None
      with Cons.prems(1) False vb have "verlet_loop dt maxp sn bs h1 rest = (err, h')" by simp
      then show ?thesis using b1 by (rule Cons.IH)
    qed
  qed
qed

lemma verlet_loop_ok:
  "distinct xs \<Longrightarrow>
   (\<And>x. x \<in> set xs \<Longrightarrow> x \<noteq> sn \<Longrightarrow> mass (deref h x) \<noteq> 0 \<and>
      (length (trajectory (deref h x)) < maxp \<or> trajectory (deref h x) \<noteq> [])) \<Longrightarrow>
   fst (verlet_loop dt maxp sn bs h xs) = None"
proof (induction xs arbitrary: h)
  case Nil
  then show ?case by simp
next
  case (Cons body rest)
  show ?case
  proof (cases "body = sn")
    case True
    with Cons show ?thesis by simp
  next
    case False
    obtain e1 h1 where vb: "verlet_body dt maxp bs h body = (e1, h1)"
      by (cases "verlet_body dt maxp bs h body")
    from Cons.prems(2) [of body] False have "fst (verlet_body dt maxp bs h body) = None"
      by (intro verlet_body_ok) simp_all
    with vb have e1: "e1 = None" by simp
    have "fst (verlet_loop dt maxp sn bs h1 rest) = None"
    proof (rule Cons.IH)
      show "distinct rest" using Cons.prems(1) by simp
    next
      fix x assume x: "x \<in> set rest" "x \<noteq> sn"
      with Cons.prems(1) have "x \<noteq> body" by auto
      with vb have "h1 x = h x" by (simp add: verlet_body_other)
      with Cons.prems(2) [of x] x
      show "mass (deref h1 x) \<noteq> 0 \<and>
            (length (trajectory (deref h1 x)) < maxp \<or> trajectory (deref h1 x) \<noteq> [])"
        by (simp add: deref_def)
    qed
    with False vb e1 show ?thesis by simp
  qed
qed

lemma verlet_loop_trajectory:
  "distinct xs \<Longrightarrow> verlet_loop dt maxp sn bs h xs = (None, h') \<Longrightarrow>
   x \<in> set xs \<Longrightarrow> x \<noteq> sn \<Longrightarrow>
   trajectory (deref h' x) =
     (if length (trajectory (deref h x)) < maxp
      then trajectory (deref h x) @ [position (deref h' x)]
      else tl (trajectory (deref h x)) @ [position (deref h' x)])"
proof (induction xs arbitrary: h)
  case Nil
  then show ?case by simp
next
  case (Cons body rest)
  show ?case
  proof (cases "body = sn")
    case True
    with Cons show ?thesis by auto
  next
    case False
    obtain e1 h1 where vb: "verlet_body dt maxp bs h body = (e1, h1)"
      by (cases "verlet_body dt maxp bs h body")
    from Cons.prems(2) False vb have e1: "e1 = None"
      by (cases e1) auto
    with Cons.prems(2) False vb have loop: "verlet_loop dt maxp sn bs h1 rest = (None, h')"
      by simp
    show ?thesis
    proof (cases "x = body")
      case True
      with Cons.prems(1) have "x \<notin> set rest" by simp
      with loop have "h' x = h1 x" by (simp add: verlet_loop_other)
      then have "deref h' x = deref h1 x" by (simp add: deref_def)
      with True vb e1 verlet_body_trajectory(1) [of dt maxp bs h body h1] show ?thesis
        by simp
    next
      case False
      with Cons.prems(3) have "x \<in> set rest" by simp
      moreover from Cons.prems(1) have "distinct rest" by simp
      ultimately have "trajectory (deref h' x) =
         (if length (trajectory (deref h1 x)) < maxp
          then trajectory (deref h1 x) @ [position (deref h' x)]
          else tl (trajectory (deref h1 x)) @ [position (deref h' x)])"
        using loop Cons.prems(4) Cons.IH by blast
      moreover from vb False have "h1 x = h x" by (simp add: verlet_body_other)
      then have "deref h1 x = deref h x" by (simp add: deref_def)
      ultimately show ?thesis by simp
    qed
  qed
qed


subsection \<open>One step\<close>

lemma store_state_fields:
  assumes "store_state s = (err, s')"
  shows "objects s' = objects s" and "bodies s' = bodies s" and "sun s' = sun s"
    and "max_trajectory_points s' = max_trajectory_points s" and "is_running s' = is_running s"
    and "next_ref s' = next_ref s" and "time s' = time s"
    and "time_step s' = time_step s" and "speed_multiplier s' = speed_multiplier s"
  using assms by (auto simp: store_state_def Let_def split: if_splits list.splits)

lemma store_state_bound:
  assumes "store_state s = (err, s')"
    and "length (trajectory_history s) \<le> max_trajectory_points s"
  shows "length (trajectory_history s') \<le> max_trajectory_points s"
  using assms by (auto simp: store_state_def Let_def split: if_splits list.splits)

lemma store_state_ok:
  "0 < max_trajectory_points s \<Longrightarrow> fst (store_state s) = None"
  by (auto simp: store_state_def Let_def split: list.splits)

text \<open>
  A running step, taken apart: the store after the first loop, after the second loop,
  and the result.
\<close>

lemma step_running_cases:
  assumes run: "is_running s"
  obtains
    (raise1) e1 h1 where
      "accel_loop (sun s) (bodies s) (objects s) (bodies s) = (Some e1, h1)"
      "step s = (Some e1, s\<lparr>objects := h1\<rparr>)"
  | (raise2) h1 e2 h2 where
      "accel_loop (sun s) (bodies s) (objects s) (bodies s) = (None, h1)"
      "verlet_loop (time_step s * speed_multiplier s) (max_trajectory_points s) (sun s)
         (bodies s) h1 (bodies s) = (Some e2, h2)"
      "step s = (Some e2, s\<lparr>objects := h2\<rparr>)"
  | (finish) h1 h2 where
      "accel_loop (sun s) (bodies s) (objects s) (bodies s) = (None, h1)"
      "verlet_loop (time_step s * speed_multiplier s) (max_trajectory_points s) (sun s)
         (bodies s) h1 (bodies s) = (None, h2)"
      "step s = store_state (s\<lparr>objects := h2, time := time s + time_step s * speed_multiplier s\<rparr>)"
proof -
  obtain e1 h1 where a: "accel_loop (sun s) (bodies s) (objects s) (bodies s) = (e1, h1)"
    by (cases "accel_loop (sun s) (bodies s) (objects s) (bodies s)")
  obtain e2 h2 where v: "verlet_loop (time_step s * speed_multiplier s) (max_trajectory_points s)
         (sun s) (bodies s) h1 (bodies s) = (e2, h2)"
    by (cases "verlet_loop (time_step s * speed_multiplier s) (max_trajectory_points s)
         (sun s) (bodies s) h1 (bodies s)")
  show thesis
  proof (cases e1)
    case (Some e)
    with a run show thesis by (intro raise1 [of e h1]) (simp_all add: step_def)
  next
    case None
    note e1 = this
    show thesis
    proof (cases e2)
      case (Some e)
      with a v e1 run show thesis by (intro raise2 [of h1 e h2]) (simp_all add: step_def)
    next
      case None
      with a v e1 run show thesis by (intro finish [of h1 h2]) (simp_all add: step_def)
    qed
  qed
qed

lemma step_fields:
  "bodies (snd (step s)) = bodies s \<and> sun (snd (step s)) = sun s \<and>
   max_trajectory_points (snd (step s)) = max_trajectory_points s \<and>
   is_running (snd (step s)) = is_running s \<and> next_ref (snd (step s)) = next_ref s \<and>
   time_step (snd (step s)) = time_step s \<and> speed_multiplier (snd (step s)) = speed_multiplier s"
proof (cases "is_running s")
  case False
  then show ?thesis by (simp add: step_def)
next
  case True
  then show ?thesis
  proof (cases rule: step_running_cases)
    case (raise1 e1 h1)
    then show ?thesis by simp
  next
    case (raise2 h1 e2 h2)
    then show ?thesis by simp
  next
    case (finish h1 h2)
    then show ?thesis
      using store_state_fields [OF surjective_pairing,
              of "s\<lparr>objects := h2, time := time s + time_step s * speed_multiplier s\<rparr>"]
      by simp
  qed
qed

text \<open>The store after a step, in terms of the two loops.\<close>

lemma step_store:
  assumes "is_running s"
  obtains e1 h1 e2 h2 where
    "accel_loop (sun s) (bodies s) (objects s) (bodies s) = (e1, h1)"
    "verlet_loop (time_step s * speed_multiplier s) (max_trajectory_points s) (sun s)
       (bodies s) h1 (bodies s) = (e2, h2)"
    "objects (snd (step s)) = h1 \<or> objects (snd (step s)) = h2"
  using assms
proof (cases rule: step_running_cases)
  case (raise1 e1 h1)
  obtain e2 h2 where "verlet_loop (time_step s * speed_multiplier s) (max_trajectory_points s)
        (sun s) (bodies s) h1 (bodies s) = (e2, h2)"
    by (cases "verlet_loop (time_step s * speed_multiplier s) (max_trajectory_points s)
        (sun s) (bodies s) h1 (bodies s)")
  with raise1 that show ?thesis by simp
next
  case (raise2 h1 e2 h2)
  with that show ?thesis by simp
next
  case (finish h1 h2)
  with that [of None h1 None h2]
    store_state_fields(1) [OF surjective_pairing,
       of "s\<lparr>objects := h2, time := time s + time_step s * speed_multiplier s\<rparr>"]
  show ?thesis by simp
qed

lemma step_sun_object: "objects (snd (step s)) (sun s) = objects s (sun s)"
proof (cases "is_running s")
  case False
  then show ?thesis by (simp add: step_def)
next
  case True
  then show ?thesis
  proof (cases rule: step_store)
    case (1 e1 h1 e2 h2)
    from 1(1) have a: "h1 (sun s) = objects s (sun s)" by (simp add: accel_loop_other)
    from 1(2) have "h2 (sun s) = h1 (sun s)" by (simp add: verlet_loop_other)
    with a 1(3) show ?thesis by auto
  qed
qed

lemma step_other_object: "x \<notin> set (bodies s) \<Longrightarrow> objects (snd (step s)) x = objects s x"
proof (cases "is_running s")
  case False
  then show ?thesis by (simp add: step_def)
next
  case True
  assume x: "x \<notin> set (bodies s)"
  from True show ?thesis
  proof (cases rule: step_store)
    case (1 e1 h1 e2 h2)
    from 1(1) x have a: "h1 x = objects s x" by (simp add: accel_loop_other)
    from 1(2) x have "h2 x = h1 x" by (simp add: verlet_loop_other)
    with a 1(3) show ?thesis by auto
  qed
qed

lemma step_keeps:
  "mass (deref (objects (snd (step s))) x) = mass (deref (objects s) x) \<and>
   name (deref (objects (snd (step s))) x) = name (deref (objects s) x)"
proof (cases "is_running s")
  case False
  then show ?thesis by (simp add: step_def)
next
  case True
  then show ?thesis
  proof (cases rule: step_store)
    case (1 e1 h1 e2 h2)
    from 1(1) have a: "mass (deref h1 x) = mass (deref (objects s) x)"
        "name (deref h1 x) = name (deref (objects s) x)"
      by (simp_all add: accel_loop_keeps)
    from 1(2) have "mass (deref h2 x) = mass (deref h1 x) \<and> name (deref h2 x) = name (deref h1 x)"
      by (rule verlet_loop_keeps)
    with a 1(3) show ?thesis by auto
  qed
qed

lemma step_trajectory_bound:
  assumes "length (trajectory (deref (objects s) x)) \<le> max_trajectory_points s"
  shows "length (trajectory (deref (objects (snd (step s))) x)) \<le> max_trajectory_points s"
proof (cases "is_running s")
  case False
  with assms show ?thesis by (simp add: step_def)
next
  case True
  then show ?thesis
  proof (cases rule: step_store)
    case (1 e1 h1 e2 h2)
    from 1(1) assms have a: "length (trajectory (deref h1 x)) \<le> max_trajectory_points s"
      by (simp add: accel_loop_keeps)
    with 1(2) have "length (trajectory (deref h2 x)) \<le> max_trajectory_points s"
      by (rule verlet_loop_bound)
    with a 1(3) show ?thesis by auto
  qed
qed

lemma step_history_bound:
  assumes "length (trajectory_history s) \<le> max_trajectory_points s"
  shows "length (trajectory_history (snd (step s))) \<le> max_trajectory_points s"
proof (cases "is_running s")
  case False
  with assms show ?thesis by (simp add: step_def)
next
  case True
  then show ?thesis
  proof (cases rule: step_running_cases)
    case (raise1 e1 h1)
    with assms show ?thesis by simp
  next
    case (raise2 h1 e2 h2)
    with assms show ?thesis by simp
  next
    case (finish h1 h2)
    with assms show ?thesis
      using store_state_bound [OF surjective_pairing,
              of "s\<lparr>objects := h2, time := time s + time_step s * speed_multiplier s\<rparr>"]
      by simp
  qed
qed


subsection \<open>Reachable states\<close>

lemma anchored_init: "anchored (init_simulator ts sm)"
  by (simp add: anchored_def init_simulator_def deref_def create_sun_def new_body_def)

lemma anchored_add_body:
  assumes "anchored s"
  shows "anchored (snd (add_body s nm m pos vel rad col))"
proof -
  from assms have sun: "sun s \<in> set (bodies s)"
    unfolding anchored_def by (metis hd_in_set)
  with assms have "sun s < next_ref s" by (simp add: anchored_def)
  with assms show ?thesis
    by (auto simp: anchored_def add_body_def Let_def deref_def new_body_def)
qed

lemma anchored_add_body_from_parameters:
  "anchored s \<Longrightarrow> anchored (snd (add_body_from_parameters s nm m d v0 ang rad col))"
  by (simp add: add_body_from_parameters_def Let_def anchored_add_body)

lemma anchored_start: "anchored s \<Longrightarrow> anchored (start s)"
  by (simp add: anchored_def start_def)

lemma anchored_stop: "anchored s \<Longrightarrow> anchored (stop s)"
  by (simp add: anchored_def stop_def)

lemma create_sun_trajectory: "create_sun\<lparr>trajectory := []\<rparr> = create_sun"
  by (simp add: create_sun_def new_body_def)

lemma anchored_sun_below: "anchored s \<Longrightarrow> sun s \<in> set (bodies s) \<and> sun s < next_ref s"
  unfolding anchored_def by (metis hd_in_set)

lemma anchored_reset:
  assumes "anchored s"
  shows "anchored (reset s)"
proof -
  have "trajectory create_sun = []"
    by (simp add: create_sun_def new_body_def)
  with assms anchored_sun_below [OF assms] show ?thesis
    by (simp add: anchored_def reset_def Let_def deref_def create_sun_trajectory)
qed

lemma anchored_step:
  assumes "anchored s"
  shows "anchored (snd (step s))"
proof -
  have f: "bodies (snd (step s)) = bodies s" "sun (snd (step s)) = sun s"
      "max_trajectory_points (snd (step s)) = max_trajectory_points s"
      "next_ref (snd (step s)) = next_ref s"
    using step_fields [of s] by simp_all
  have "\<forall>b \<in> set (bodies s). length (trajectory (deref (objects (snd (step s))) b)) \<le> 1000"
  proof
    fix b assume "b \<in> set (bodies s)"
    with assms have "length (trajectory (deref (objects s) b)) \<le> max_trajectory_points s"
      by (simp add: anchored_def)
    then have "length (trajectory (deref (objects (snd (step s))) b)) \<le> max_trajectory_points s"
      by (rule step_trajectory_bound)
    with assms show "length (trajectory (deref (objects (snd (step s))) b)) \<le> 1000"
      by (simp add: anchored_def)
  qed
  moreover have "length (trajectory_history (snd (step s))) \<le> 1000"
    using step_history_bound [of s] assms by (simp add: anchored_def)
  ultimately show ?thesis
    using assms by (simp add: anchored_def f step_sun_object)
qed

lemma reachable_anchored: "reachable s \<Longrightarrow> anchored s"
  by (induction rule: reachable.induct)
     (simp_all add: anchored_init anchored_add_body anchored_add_body_from_parameters
        anchored_start anchored_stop anchored_reset anchored_step)

subsection \<open>The force between two bodies\<close>

lemma magnitude_origin: "magnitude (Vector3D 0 0 0) = 0"
  by (simp add: magnitude_def)




subsection \<open>Stopping and resetting\<close>

text \<open>
  C3. If \<^verbatim>\<open>is_running\<close> is false, \<^verbatim>\<open>step\<close> returns at once: no exception, and the
  whole simulator (time, every body's position, velocity, acceleration and trajectory,
  the history buffer) is as before the call.
\<close>

theorem step_stopped_noop: "\<not> is_running s \<Longrightarrow> step s = (None, s)"
  by (simp add: step_def)

theorem step_stopped_noop_witness:
  "\<not> is_running (stop demo_simulator) \<and>
   step (stop demo_simulator) = (None, stop demo_simulator)"
  using step_stopped_noop [of "stop demo_simulator"]
  by (simp add: stop_def)

text \<open>
  C4. After \<^verbatim>\<open>reset\<close> from any state the body list is exactly the central body,
  the time is 0, the simulator is stopped, the history buffer is empty and so is the
  trajectory of the one body that remains; and a second \<^verbatim>\<open>reset\<close> changes nothing.
\<close>

theorem reset_clears_and_idempotent:
  "bodies (reset s) = [sun s] \<and> sun (reset s) = sun s \<and> time (reset s) = 0 \<and>
   \<not> is_running (reset s) \<and> trajectory_history (reset s) = [] \<and>
   trajectory (deref (objects (reset s)) (sun s)) = [] \<and>
   reset (reset s) = reset s"
  by (simp add: reset_def Let_def deref_def)

subsection \<open>The central body\<close>

text \<open>
  C2. In every reachable state the central body is present and first in the body list
  (and nowhere else in it), it is named Sun, its position, velocity and acceleration are
  the zero vector, and \<^verbatim>\<open>step\<close> leaves the Sun object as it is: both loops of
  \<^verbatim>\<open>step\<close> run as if the list started after the Sun, so no acceleration is computed
  for it and none is applied to it.
\<close>

theorem sun_is_fixed_anchor:
  assumes "reachable s"
  shows "bodies s \<noteq> [] \<and> hd (bodies s) = sun s \<and> sun s \<notin> set (tl (bodies s)) \<and>
         name (deref (objects s) (sun s)) = ''Sun'' \<and>
         position (deref (objects s) (sun s)) = Vector3D 0 0 0 \<and>
         velocity (deref (objects s) (sun s)) = Vector3D 0 0 0 \<and>
         acceleration (deref (objects s) (sun s)) = Vector3D 0 0 0 \<and>
         objects (snd (step s)) (sun s) = objects s (sun s) \<and>
         accel_loop (sun s) bs h (bodies s) = accel_loop (sun s) bs h (tl (bodies s)) \<and>
         verlet_loop dt maxp (sun s) bs h (bodies s) =
           verlet_loop dt maxp (sun s) bs h (tl (bodies s))"
proof -
  from assms have a: "anchored s" by (rule reachable_anchored)
  then obtain rest where b: "bodies s = sun s # rest"
    unfolding anchored_def by (cases "bodies s") auto
  from a b have "sun s \<notin> set rest" by (simp add: anchored_def)
  moreover from a have "deref (objects s) (sun s) = create_sun"
    by (simp add: anchored_def deref_def)
  ultimately show ?thesis
    using b by (simp add: step_sun_object create_sun_def new_body_def)
qed

theorem sun_is_fixed_anchor_witness:
  "reachable demo_simulator \<and> bodies demo_simulator = [0, 1] \<and> sun demo_simulator = 0 \<and>
   position (deref (objects demo_simulator) 0) = Vector3D 0 0 0 \<and>
   velocity (deref (objects demo_simulator) 0) = Vector3D 0 0 0 \<and>
   objects (snd (step demo_simulator)) 0 = Some create_sun"
proof -
  have r: "reachable demo_simulator"
    unfolding demo_simulator_def by (intro reachable.intros)
  have "sun demo_simulator = 0" "bodies demo_simulator = [0, 1]"
       "objects demo_simulator 0 = Some create_sun"
    by (simp_all add: demo_simulator_def start_def add_body_def init_simulator_def Let_def)
  with r sun_is_fixed_anchor [OF r] show ?thesis
    by simp
qed

subsection \<open>Trajectories\<close>

lemma step_completes:
  assumes a: "anchored s"
    and m: "\<And>x. x \<in> set (bodies s) \<Longrightarrow> x \<noteq> sun s \<Longrightarrow> mass (deref (objects s) x) \<noteq> 0"
  shows "fst (step s) = None"
proof (cases "is_running s")
  case False
  then show ?thesis by (simp add: step_def)
next
  case True
  from a have maxp: "max_trajectory_points s = 1000" and d: "distinct (bodies s)"
    by (simp_all add: anchored_def)
  have ok1: "fst (accel_loop (sun s) (bodies s) (objects s) (bodies s)) = None"
    by (rule accel_loop_ok) (rule m)
  have ok2: "fst (verlet_loop (time_step s * speed_multiplier s) (max_trajectory_points s)
                    (sun s) (bodies s) h1 (bodies s)) = None"
    if h1: "accel_loop (sun s) (bodies s) (objects s) (bodies s) = (None, h1)" for h1
  proof (rule verlet_loop_ok [OF d])
    fix x assume x: "x \<in> set (bodies s)" "x \<noteq> sun s"
    from h1 have "mass (deref h1 x) = mass (deref (objects s) x)"
      by (rule accel_loop_keeps)
    with m [OF x] have "mass (deref h1 x) \<noteq> 0" by simp
    moreover have "length (trajectory (deref h1 x)) < max_trajectory_points s \<or>
                   trajectory (deref h1 x) \<noteq> []"
      using maxp by (cases "trajectory (deref h1 x)") simp_all
    ultimately show "mass (deref h1 x) \<noteq> 0 \<and>
           (length (trajectory (deref h1 x)) < max_trajectory_points s \<or>
            trajectory (deref h1 x) \<noteq> [])" by simp
  qed
  from True show ?thesis
  proof (cases rule: step_running_cases)
    case (raise1 e1 h1)
    with ok1 show ?thesis by simp
  next
    case (raise2 h1 e2 h2)
    with ok2 [of h1] show ?thesis by simp
  next
    case (finish h1 h2)
    with maxp show ?thesis by (simp add: store_state_ok)
  qed
qed

lemma step_appends:
  assumes a: "anchored s" and run: "is_running s" and ok: "fst (step s) = None"
    and b: "b \<in> set (bodies s)" "b \<noteq> sun s"
  shows "trajectory (deref (objects (snd (step s))) b) =
           (if length (trajectory (deref (objects s) b)) < 1000
            then trajectory (deref (objects s) b) @ [position (deref (objects (snd (step s))) b)]
            else tl (trajectory (deref (objects s) b)) @
                 [position (deref (objects (snd (step s))) b)])"
proof -
  from a have maxp: "max_trajectory_points s = 1000" and d: "distinct (bodies s)"
    by (simp_all add: anchored_def)
  from run show ?thesis
  proof (cases rule: step_running_cases)
    case (raise1 e1 h1)
    with ok show ?thesis by simp
  next
    case (raise2 h1 e2 h2)
    with ok show ?thesis by simp
  next
    case (finish h1 h2)
    from finish(3) have "objects (snd (step s)) = h2"
      using store_state_fields(1) [OF surjective_pairing,
              of "s\<lparr>objects := h2, time := time s + time_step s * speed_multiplier s\<rparr>"]
      by simp
    moreover from finish(1) have "trajectory (deref h1 b) = trajectory (deref (objects s) b)"
      by (rule accel_loop_keeps)
    moreover note verlet_loop_trajectory [OF d finish(2) b]
    ultimately show ?thesis using maxp by simp
  qed
qed

lemma push_drop:
  assumes "0 < m"
  shows "(if length (drop (length xs - m) xs) < m then drop (length xs - m) xs @ [p]
          else tl (drop (length xs - m) xs) @ [p]) = drop (Suc (length xs) - m) (xs @ [p])"
proof (cases "length xs < m")
  case True
  then show ?thesis by simp
next
  case False
  with assms have "Suc (length xs) - m = Suc (length xs - m)" by arith
  with False assms show ?thesis by (simp add: drop_Suc tl_drop)
qed

lemma steps_fields:
  "bodies (steps n s) = bodies s \<and> sun (steps n s) = sun s \<and>
   is_running (steps n s) = is_running s"
  by (induction n) (simp_all add: step_fields)

lemma steps_mass: "mass (deref (objects (steps n s)) x) = mass (deref (objects s) x)"
  by (induction n) (simp_all add: step_keeps)

lemma steps_anchored: "anchored s \<Longrightarrow> anchored (steps n s)"
  by (induction n) (simp_all add: anchored_step)

lemma steps_trajectory:
  assumes a: "anchored s" and run: "is_running s"
    and b: "b \<in> set (bodies s)" "b \<noteq> sun s"
  shows "(\<forall>k < n. fst (step (steps k s)) = None) \<Longrightarrow>
         trajectory (deref (objects (steps n s)) b) =
           drop (length (trajectory (deref (objects s) b)) + n - 1000)
             (trajectory (deref (objects s) b) @
              map (\<lambda>k. position (deref (objects (steps k s)) b)) [1..<Suc n])"
proof (induction n)
  case 0
  from a b have "length (trajectory (deref (objects s) b)) \<le> 1000"
    by (simp add: anchored_def)
  then show ?case by simp
next
  case (Suc n)
  let ?s = "steps n s"
  let ?t = "trajectory (deref (objects s) b)"
  let ?f = "\<lambda>k. position (deref (objects (steps k s)) b)"
  let ?xs = "?t @ map ?f [1..<Suc n]"
  have len: "length ?xs = length ?t + n"
    by (simp del: upt_Suc)
  have upt: "[1..<Suc (Suc n)] = [1..<Suc n] @ [Suc n]"
    by (rule upt_Suc_append) simp
  have an: "anchored ?s" using a by (rule steps_anchored)
  have f: "bodies ?s = bodies s" "sun ?s = sun s" "is_running ?s"
    using steps_fields [of n s] run by simp_all
  from Suc.prems have ok: "fst (step ?s) = None" and before: "\<forall>k < n. fst (step (steps k s)) = None"
    by simp_all
  from an f b ok have "trajectory (deref (objects (snd (step ?s))) b) =
           (if length (trajectory (deref (objects ?s) b)) < 1000
            then trajectory (deref (objects ?s) b) @ [position (deref (objects (snd (step ?s))) b)]
            else tl (trajectory (deref (objects ?s) b)) @
                 [position (deref (objects (snd (step ?s))) b)])"
    by (intro step_appends) simp_all
  moreover have "trajectory (deref (objects ?s) b) = drop (length ?xs - 1000) ?xs"
    using Suc.IH [OF before] len by (simp only:)
  ultimately have "trajectory (deref (objects (snd (step ?s))) b) =
      drop (Suc (length ?xs) - 1000) (?xs @ [position (deref (objects (snd (step ?s))) b)])"
    using push_drop [of 1000 ?xs "position (deref (objects (snd (step ?s))) b)"]
    by (simp only:)
  moreover have "?xs @ [position (deref (objects (snd (step ?s))) b)] =
                 ?t @ map ?f [1..<Suc (Suc n)]"
    by (simp only: upt map_append append_assoc list.map steps.simps)
  moreover have "Suc (length ?xs) - 1000 = length ?t + Suc n - 1000"
    using len by simp
  ultimately show ?case
    by (simp only: steps.simps)
qed

lemma steps_complete:
  assumes a: "anchored s"
    and m: "\<And>x. x \<in> set (bodies s) \<Longrightarrow> x \<noteq> sun s \<Longrightarrow> mass (deref (objects s) x) \<noteq> 0"
  shows "fst (step (steps k s)) = None"
proof (rule step_completes)
  show "anchored (steps k s)" using a by (rule steps_anchored)
next
  fix x assume "x \<in> set (bodies (steps k s))" "x \<noteq> sun (steps k s)"
  then show "mass (deref (objects (steps k s)) x) \<noteq> 0"
    using steps_fields [of k s] by (simp add: steps_mass m)
qed

lemma drop_upt_window:
  assumes "1000 \<le> n"
  shows "drop (n - 1000) [1..<Suc n] = [n - 999..<Suc n]"
proof -
  have "drop (n - 1000) [1..<Suc n] = [1 + (n - 1000)..<Suc n]"
    by (rule drop_upt)
  moreover from assms have "1 + (n - 1000) = n - 999" by arith
  ultimately show ?thesis by (simp only:)
qed


lemma zero_mass_fields:
  "bodies zero_mass_simulator = [0, 1, 2]" "sun zero_mass_simulator = 0"
  "is_running zero_mass_simulator"
  "mass (deref (objects zero_mass_simulator) 1) = 1"
  "mass (deref (objects zero_mass_simulator) 2) = 0"
  "trajectory (deref (objects zero_mass_simulator) 1) = []"
  by (simp_all add: zero_mass_simulator_def start_def add_body_def init_simulator_def Let_def
        deref_def new_body_def)

lemma zero_mass_first_loop:
  "fst (accel_loop 0 [0, 1, 2] (objects zero_mass_simulator) [0, 1, 2]) =
     Some ZeroDivisionError"
proof -
  let ?h = "objects zero_mass_simulator"
  let ?acc = "vtruediv (sum_forces ?h 1 [0, 1, 2] (Vector3D 0 0 0)) (mass (deref ?h 1))"
  let ?h1 = "?h(1 \<mapsto> (deref ?h 1)\<lparr>acceleration := ?acc\<rparr>)"
  have c1: "calculate_acceleration ?h 1 [0, 1, 2] = Inr (?acc, ?h1)"
    by (rule calculate_acceleration_ok) (use zero_mass_fields in simp)
  have "mass (deref ?h1 2) = 0"
    using zero_mass_fields by (simp add: deref_upd)
  then have c2: "calculate_acceleration ?h1 2 [0, 1, 2] = Inl ZeroDivisionError"
    by (simp add: calculate_acceleration_Inl)
  have "accel_loop 0 [0, 1, 2] ?h [0, 1, 2] = accel_loop 0 [0, 1, 2] ?h [1, 2]"
    by simp
  also have "\<dots> = accel_loop 0 [0, 1, 2] ?h1 [2]"
    using c1 by simp
  also have "\<dots> = (Some ZeroDivisionError, ?h1)"
    using c2 by simp
  finally show ?thesis by simp
qed

text \<open>
  C5, as stated, fails. \<^verbatim>\<open>add_body\<close> accepts a mass of zero, and with such a body in
  the list a step while running raises \<^verbatim>\<open>ZeroDivisionError\<close> in its first loop: it
  appends no position, and the trajectory of the other body is as empty after the step
  as before.
\<close>

theorem step_zero_mass_appends_nothing_counterexample:
  "reachable zero_mass_simulator \<and> is_running zero_mass_simulator \<and>
   1 \<in> set (bodies zero_mass_simulator) \<and> 1 \<noteq> sun zero_mass_simulator \<and>
   fst (step zero_mass_simulator) = Some ZeroDivisionError \<and>
   trajectory (deref (objects zero_mass_simulator) 1) = [] \<and>
   trajectory (deref (objects (snd (step zero_mass_simulator))) 1) = []"
proof -
  have r: "reachable zero_mass_simulator"
    unfolding zero_mass_simulator_def by (intro reachable.intros)
  have run: "is_running zero_mass_simulator" by (rule zero_mass_fields)
  from run have "fst (step zero_mass_simulator) = Some ZeroDivisionError \<and>
      trajectory (deref (objects (snd (step zero_mass_simulator))) 1) = []"
  proof (cases rule: step_running_cases)
    case (raise1 e1 h1)
    from raise1(1) zero_mass_first_loop have "e1 = ZeroDivisionError"
      by (simp add: zero_mass_fields(1,2))
    moreover from raise1(1) have "trajectory (deref h1 1) =
        trajectory (deref (objects zero_mass_simulator) 1)"
      by (rule accel_loop_keeps)
    ultimately show ?thesis
      using raise1(2) zero_mass_fields by simp
  next
    case (raise2 h1 e2 h2)
    with zero_mass_first_loop show ?thesis
      by (simp add: zero_mass_fields(1,2))
  next
    case (finish h1 h2)
    with zero_mass_first_loop show ?thesis
      by (simp add: zero_mass_fields(1,2))
  qed
  with r zero_mass_fields show ?thesis
    by simp
qed

text \<open>
  C5, amended. In every reachable state the trajectory of a body holds at most 1000
  positions. A step while running that returns (raises no exception) appends exactly one
  position, the body's new one, to the trajectory of each non-central body, after
  dropping the oldest entry if the list is full. After \<open>n > 1000\<close> running steps that
  all returned, the trajectory is exactly the positions recorded at the steps
  \<open>n - 999, \<dots>, n\<close>, in that order: its length is 1000, its first element is the entry
  recorded at step \<open>n - 999 > 1\<close>, the entry of step 1 having been evicted, and entry \<open>j\<close>
  is the one recorded at step \<open>n - 999 + j\<close>, so the entries are in ascending order of
  time. (This is about which entries the list holds: the positions themselves can be
  equal, as for a body that does not move.)
\<close>

theorem trajectory_sliding_window:
  assumes "reachable s" and "b \<in> set (bodies s)"
  shows "length (trajectory (deref (objects s) b)) \<le> 1000 \<and>
         (is_running s \<and> b \<noteq> sun s \<longrightarrow>
            (fst (step s) = None \<longrightarrow>
               trajectory (deref (objects (snd (step s))) b) =
                 (if length (trajectory (deref (objects s) b)) < 1000
                  then trajectory (deref (objects s) b) @
                       [position (deref (objects (snd (step s))) b)]
                  else tl (trajectory (deref (objects s) b)) @
                       [position (deref (objects (snd (step s))) b)])) \<and>
            (1000 < n \<and> (\<forall>k < n. fst (step (steps k s)) = None) \<longrightarrow>
               trajectory (deref (objects (steps n s)) b) =
                 map (\<lambda>k. position (deref (objects (steps k s)) b)) [n - 999..<Suc n] \<and>
               length (trajectory (deref (objects (steps n s)) b)) = 1000 \<and>
               hd (trajectory (deref (objects (steps n s)) b)) =
                 position (deref (objects (steps (n - 999) s)) b) \<and>
               1 < n - 999 \<and>
               (\<forall>j < 1000. trajectory (deref (objects (steps n s)) b) ! j =
                              position (deref (objects (steps (n - 999 + j) s)) b))))"
proof -
  from assms(1) have a: "anchored s" by (rule reachable_anchored)
  with assms(2) have bound: "length (trajectory (deref (objects s) b)) \<le> 1000"
    by (simp add: anchored_def)
  let ?f = "\<lambda>k. position (deref (objects (steps k s)) b)"
  let ?t = "trajectory (deref (objects s) b)"
  have one: "trajectory (deref (objects (snd (step s))) b) =
              (if length ?t < 1000
               then ?t @ [position (deref (objects (snd (step s))) b)]
               else tl ?t @ [position (deref (objects (snd (step s))) b)])"
    if "is_running s" "b \<noteq> sun s" "fst (step s) = None"
    using a that(1,3) assms(2) that(2) by (rule step_appends)
  have many: "trajectory (deref (objects (steps n s)) b) = map ?f [n - 999..<Suc n] \<and>
               length (trajectory (deref (objects (steps n s)) b)) = 1000 \<and>
               hd (trajectory (deref (objects (steps n s)) b)) = ?f (n - 999) \<and>
               1 < n - 999 \<and>
               (\<forall>j < 1000. trajectory (deref (objects (steps n s)) b) ! j = ?f (n - 999 + j))"
    if r: "is_running s" and ns: "b \<noteq> sun s" and n: "1000 < n"
      and ok: "\<forall>k < n. fst (step (steps k s)) = None"
  proof -
    have "trajectory (deref (objects (steps n s)) b) =
            drop (length ?t + n - 1000) (?t @ map ?f [1..<Suc n])"
      using a r assms(2) ns ok by (rule steps_trajectory)
    also have "length ?t + n - 1000 = length ?t + (n - 1000)"
      using n by simp
    also have "drop (length ?t + (n - 1000)) (?t @ map ?f [1..<Suc n]) =
               drop (n - 1000) (map ?f [1..<Suc n])"
      by (simp only: drop_append) simp
    also have "\<dots> = map ?f (drop (n - 1000) [1..<Suc n])"
      by (rule drop_map)
    also have "drop (n - 1000) [1..<Suc n] = [n - 999..<Suc n]"
      using n by (intro drop_upt_window) simp
    finally have eq: "trajectory (deref (objects (steps n s)) b) = map ?f [n - 999..<Suc n]" .
    have ne: "[n - 999..<Suc n] = (n - 999) # [Suc (n - 999)..<Suc n]"
      using n by (intro upt_conv_Cons) simp
    have len: "length [n - 999..<Suc n] = 1000"
      using n by (simp del: upt_Suc)
    have nth: "map ?f [n - 999..<Suc n] ! j = ?f (n - 999 + j)" if "j < 1000" for j
      using that n by (simp del: upt_Suc)
    from eq have "hd (trajectory (deref (objects (steps n s)) b)) = ?f (n - 999)"
      by (simp only: ne list.map list.sel)
    moreover from eq len have "length (trajectory (deref (objects (steps n s)) b)) = 1000"
      by (simp only: length_map)
    moreover from n have "1 < n - 999" by simp
    ultimately show ?thesis
      using eq nth by (simp only:) simp
  qed
  from bound one many show ?thesis by blast
qed

theorem trajectory_sliding_window_witness:
  "reachable demo_simulator \<and> 1 \<in> set (bodies demo_simulator) \<and>
   is_running demo_simulator \<and> 1 \<noteq> sun demo_simulator \<and>
   trajectory (deref (objects demo_simulator) 1) = [] \<and>
   fst (step demo_simulator) = None \<and>
   fst (step (steps 1000 demo_simulator)) = None \<and>
   trajectory (deref (objects (snd (step demo_simulator))) 1) =
     [position (deref (objects (snd (step demo_simulator))) 1)] \<and>
   length (trajectory (deref (objects (steps 1001 demo_simulator)) 1)) = 1000 \<and>
   hd (trajectory (deref (objects (steps 1001 demo_simulator)) 1)) =
     position (deref (objects (steps 2 demo_simulator)) 1)"
proof -
  have r: "reachable demo_simulator"
    unfolding demo_simulator_def by (intro reachable.intros)
  have f: "sun demo_simulator = 0" "bodies demo_simulator = [0, 1]" "is_running demo_simulator"
       "mass (deref (objects demo_simulator) 1) = 1"
       "trajectory (deref (objects demo_simulator) 1) = []"
    by (simp_all add: demo_simulator_def start_def add_body_def init_simulator_def Let_def
          deref_def new_body_def)
  have b: "1 \<in> set (bodies demo_simulator)"
    by (simp add: f)
  have ok: "fst (step (steps k demo_simulator)) = None" for k
    by (rule steps_complete [OF reachable_anchored [OF r]]) (use f in auto)
  from ok [of 0] have ok0: "fst (step demo_simulator) = None" by simp
  from trajectory_sliding_window [OF r b, of 1001] r f ok ok0 show ?thesis
    by simp
qed

subsection \<open>Orbital elements\<close>









subsection \<open>The angles of the orbital elements\<close>

lemma magnitude_sq: "(magnitude a)\<^sup>2 = (vx a)\<^sup>2 + (vy a)\<^sup>2 + (vz a)\<^sup>2"
  by (simp add: magnitude_def)

lemma abs_component_le_magnitude:
  "\<bar>vx a\<bar> \<le> magnitude a" "\<bar>vy a\<bar> \<le> magnitude a" "\<bar>vz a\<bar> \<le> magnitude a"
proof -
  have "sqrt ((vx a)\<^sup>2) \<le> magnitude a" "sqrt ((vy a)\<^sup>2) \<le> magnitude a"
       "sqrt ((vz a)\<^sup>2) \<le> magnitude a"
    unfolding magnitude_def by (intro real_sqrt_le_mono; simp)+
  then show "\<bar>vx a\<bar> \<le> magnitude a" "\<bar>vy a\<bar> \<le> magnitude a" "\<bar>vz a\<bar> \<le> magnitude a"
    by simp_all
qed

lemma dot_sq_le: "(dot a b)\<^sup>2 \<le> (magnitude a)\<^sup>2 * (magnitude b)\<^sup>2"
proof -
  have "(magnitude a)\<^sup>2 * (magnitude b)\<^sup>2 - (dot a b)\<^sup>2 = (magnitude (cross a b))\<^sup>2"
    by (simp only: magnitude_sq) (simp add: dot_def cross_def power2_eq_square algebra_simps)
  moreover have "0 \<le> (magnitude (cross a b))\<^sup>2" by simp
  ultimately show ?thesis by linarith
qed

lemma abs_dot_le: "\<bar>dot a b\<bar> \<le> magnitude a * magnitude b"
proof -
  have "(dot a b)\<^sup>2 \<le> (magnitude a * magnitude b)\<^sup>2"
    using dot_sq_le [of a b] by (simp add: power_mult_distrib)
  then have "\<bar>dot a b\<bar> \<le> \<bar>magnitude a * magnitude b\<bar>"
    by (simp only: abs_le_square_iff)
  then show ?thesis
    by (simp add: magnitude_nonneg abs_mult)
qed

lemma arccos_quotient_range:
  assumes "\<bar>p\<bar> \<le> q" and "0 < q"
  shows "0 \<le> arccos (p / q) \<and> arccos (p / q) \<le> pi"
proof -
  from assms have "-1 \<le> p / q" "p / q \<le> 1"
    by (simp_all add: field_simps abs_le_iff)
  then show ?thesis
    by (simp add: arccos_lbound arccos_ubound)
qed

lemma inclination_rad_range: "0 \<le> inclination_rad pos vel \<and> inclination_rad pos vel \<le> pi"
  using arccos_quotient_range [OF abs_component_le_magnitude(3)]
  by (simp add: inclination_rad_def Let_def)

lemma Omega_rad_range: "0 \<le> Omega_rad pos vel \<and> Omega_rad pos vel \<le> 2 * pi"
proof (cases "magnitude (n_vector_of pos vel) > 0")
  case True
  from arccos_quotient_range [OF abs_component_le_magnitude(1) True]
  show ?thesis using True by (simp add: Omega_rad_def Let_def)
next
  case False
  then show ?thesis by (simp add: Omega_rad_def Let_def)
qed

lemma omega_rad_range: "0 \<le> omega_rad pos vel mu \<and> omega_rad pos vel mu \<le> 2 * pi"
proof (cases "magnitude (n_vector_of pos vel) > 0 \<and> magnitude (e_vector_of pos vel mu) > 0")
  case True
  then have "0 < magnitude (n_vector_of pos vel) * magnitude (e_vector_of pos vel mu)"
    by simp
  from arccos_quotient_range [OF abs_dot_le this]
  show ?thesis using True by (simp add: omega_rad_def Let_def)
next
  case False
  then show ?thesis by (auto simp: omega_rad_def Let_def)
qed

lemma nu_rad_range: "0 \<le> nu_rad pos vel mu \<and> nu_rad pos vel mu \<le> 2 * pi"
proof (cases "magnitude (e_vector_of pos vel mu) > 0")
  case True
  show ?thesis
  proof (cases "magnitude pos > 0")
    case pos: True
    with True have "0 < magnitude (e_vector_of pos vel mu) * magnitude pos" by simp
    from arccos_quotient_range [OF abs_dot_le this]
    show ?thesis using True by (simp add: nu_rad_def Let_def)
  next
    case False
    with magnitude_nonneg [of pos] have "magnitude pos = 0" by linarith
    moreover have "0 \<le> arccos 0" "arccos 0 \<le> pi"
      by (simp_all add: arccos_lbound arccos_ubound)
    ultimately show ?thesis using True by (simp add: nu_rad_def Let_def)
  qed
next
  case False
  then show ?thesis by (simp add: nu_rad_def Let_def)
qed

lemma degrees_range:
  assumes "0 \<le> r \<and> r \<le> k * pi"
  shows "0 \<le> degrees r \<and> degrees r \<le> k * 180"
proof -
  have "degrees r \<le> k * 180"
    using assms by (simp add: degrees_def field_simps)
  moreover have "0 \<le> degrees r"
    using assms by (simp add: degrees_def)
  ultimately show ?thesis by simp
qed


text \<open>
  C10. Whenever \<^verbatim>\<open>calculate_orbital_elements\<close> returns a dictionary, its four angular
  entries are the angles the function computed in radians, converted to degrees (times
  \<open>180 / \<pi>\<close>): the inclination lies between 0 and 180, the longitude of the ascending
  node, the argument of periapsis and the true anomaly between 0 and 360. The semi-major
  axis, the period, the periapsis and the apoapsis are reported as computed, with no
  conversion. (The bounds on the true anomaly are stated for a position off the origin,
  where the source divides by a non-zero distance.)
\<close>

theorem orbital_elements_units:
  assumes "calculate_orbital_elements pos vel sun_mass = Inr el"
  shows "inclination el = inclination_rad pos vel * 180 / pi \<and>
         0 \<le> inclination el \<and> inclination el \<le> 180 \<and>
         longitude_of_ascending_node el = Omega_rad pos vel * 180 / pi \<and>
         0 \<le> longitude_of_ascending_node el \<and> longitude_of_ascending_node el \<le> 360 \<and>
         argument_of_periapsis el = omega_rad pos vel (G * sun_mass) * 180 / pi \<and>
         0 \<le> argument_of_periapsis el \<and> argument_of_periapsis el \<le> 360 \<and>
         true_anomaly el = nu_rad pos vel (G * sun_mass) * 180 / pi \<and>
         (0 < magnitude pos \<longrightarrow> 0 \<le> true_anomaly el \<and> true_anomaly el \<le> 360) \<and>
         semi_major_axis el =
           - (G * sun_mass) /
             (2 * (0.5 * magnitude vel * magnitude vel - G * sun_mass / magnitude pos)) \<and>
         period el =
           (if semi_major_axis el > 0
            then Finite (2 * pi * sqrt (semi_major_axis el ^ 3 / (G * sun_mass)))
            else Infinity) \<and>
         periapsis el =
           (if eccentricity el < 1 then Some (semi_major_axis el * (1 - eccentricity el))
            else None) \<and>
         apoapsis el =
           (if eccentricity el < 1 then Some (semi_major_axis el * (1 + eccentricity el))
            else None)"
proof -
  define mu where "mu = G * sun_mass"
  define a where
    "a = - mu / (2 * (0.5 * magnitude vel * magnitude vel - mu / magnitude pos))"
  define e where "e = magnitude (e_vector_of pos vel mu)"
  from assms have nz: "mu \<noteq> 0"
    by (auto simp: calculate_orbital_elements_def Let_def mu_def split: if_splits)
  have "calculate_orbital_elements pos vel sun_mass =
      Inr \<lparr>semi_major_axis = a, eccentricity = e,
           inclination = degrees (inclination_rad pos vel),
           longitude_of_ascending_node = degrees (Omega_rad pos vel),
           argument_of_periapsis = degrees (omega_rad pos vel mu),
           true_anomaly = degrees (nu_rad pos vel mu),
           period = (if a > 0 then Finite (2 * pi * sqrt (a ^ 3 / mu)) else Infinity),
           periapsis = (if e < 1 then Some (a * (1 - e)) else None),
           apoapsis = (if e < 1 then Some (a * (1 + e)) else None)\<rparr>"
    using nz unfolding calculate_orbital_elements_def Let_def a_def e_def mu_def
    by (simp only: if_False if_cancel)
  with assms have el: "el =
      \<lparr>semi_major_axis = a, eccentricity = e,
       inclination = degrees (inclination_rad pos vel),
       longitude_of_ascending_node = degrees (Omega_rad pos vel),
       argument_of_periapsis = degrees (omega_rad pos vel mu),
       true_anomaly = degrees (nu_rad pos vel mu),
       period = (if a > 0 then Finite (2 * pi * sqrt (a ^ 3 / mu)) else Infinity),
       periapsis = (if e < 1 then Some (a * (1 - e)) else None),
       apoapsis = (if e < 1 then Some (a * (1 + e)) else None)\<rparr>"
    by simp
  have i: "0 \<le> degrees (inclination_rad pos vel) \<and> degrees (inclination_rad pos vel) \<le> 180"
    using degrees_range [of "inclination_rad pos vel" 1] inclination_rad_range [of pos vel]
    by simp
  have O: "0 \<le> degrees (Omega_rad pos vel) \<and> degrees (Omega_rad pos vel) \<le> 360"
    using degrees_range [of "Omega_rad pos vel" 2] Omega_rad_range [of pos vel] by simp
  have w: "0 \<le> degrees (omega_rad pos vel mu) \<and> degrees (omega_rad pos vel mu) \<le> 360"
    using degrees_range [of "omega_rad pos vel mu" 2] omega_rad_range [of pos vel mu] by simp
  have n: "0 \<le> degrees (nu_rad pos vel mu) \<and> degrees (nu_rad pos vel mu) \<le> 360"
    using degrees_range [of "nu_rad pos vel mu" 2] nu_rad_range [of pos vel mu] by simp
  have fields:
    "inclination el = inclination_rad pos vel * 180 / pi"
    "longitude_of_ascending_node el = Omega_rad pos vel * 180 / pi"
    "argument_of_periapsis el = omega_rad pos vel mu * 180 / pi"
    "true_anomaly el = nu_rad pos vel mu * 180 / pi"
    "semi_major_axis el = a" "eccentricity el = e"
    "period el = (if a > 0 then Finite (2 * pi * sqrt (a ^ 3 / mu)) else Infinity)"
    "periapsis el = (if e < 1 then Some (a * (1 - e)) else None)"
    "apoapsis el = (if e < 1 then Some (a * (1 + e)) else None)"
    by (simp_all add: el degrees_def)
  have ranges:
    "0 \<le> inclination el \<and> inclination el \<le> 180"
    "0 \<le> longitude_of_ascending_node el \<and> longitude_of_ascending_node el \<le> 360"
    "0 \<le> argument_of_periapsis el \<and> argument_of_periapsis el \<le> 360"
    "0 \<le> true_anomaly el \<and> true_anomaly el \<le> 360"
    using i O w n by (simp_all add: el)
  have raw:
    "semi_major_axis el =
       - (G * sun_mass) /
         (2 * (0.5 * magnitude vel * magnitude vel - G * sun_mass / magnitude pos))"
    "period el =
       (if semi_major_axis el > 0
        then Finite (2 * pi * sqrt (semi_major_axis el ^ 3 / (G * sun_mass)))
        else Infinity)"
    "periapsis el =
       (if eccentricity el < 1 then Some (semi_major_axis el * (1 - eccentricity el))
        else None)"
    "apoapsis el =
       (if eccentricity el < 1 then Some (semi_major_axis el * (1 + eccentricity el))
        else None)"
    unfolding fields(5-9) by (simp_all only: a_def mu_def)
  from fields(1-4) ranges raw show ?thesis
    unfolding mu_def by blast
qed

lemma G_nonzero: "G \<noteq> 0"
  by (simp add: G_def)

theorem orbital_elements_units_witness:
  "calculate_orbital_elements (Vector3D 1 0 0) (Vector3D 0 0 1) (1 / G) =
     Inr \<lparr>semi_major_axis = 1, eccentricity = 0, inclination = 90,
          longitude_of_ascending_node = 0, argument_of_periapsis = 0, true_anomaly = 0,
          period = Finite (2 * pi), periapsis = Some 1, apoapsis = Some 1\<rparr> \<and>
   inclination_rad (Vector3D 1 0 0) (Vector3D 0 0 1) = pi / 2 \<and>
   0 < magnitude (Vector3D 1 0 0)"
proof -
  have h: "h_vector_of (Vector3D 1 0 0) (Vector3D 0 0 1) = Vector3D 0 (- 1) 0"
    by (simp add: h_vector_of_def cross_def)
  have n: "n_vector_of (Vector3D 1 0 0) (Vector3D 0 0 1) = Vector3D 1 0 0"
    by (simp add: n_vector_of_def h cross_def)
  have e: "e_vector_of (Vector3D 1 0 0) (Vector3D 0 0 1) 1 = Vector3D 0 0 0"
    by (simp add: e_vector_of_def h cross_def normalize_vec_def magnitude_axis vtruediv_def
          vsub_def)
  have i: "inclination_rad (Vector3D 1 0 0) (Vector3D 0 0 1) = pi / 2"
    by (simp add: inclination_rad_def h magnitude_axis)
  have O: "Omega_rad (Vector3D 1 0 0) (Vector3D 0 0 1) = 0"
    by (simp add: Omega_rad_def n magnitude_axis)
  have w: "omega_rad (Vector3D 1 0 0) (Vector3D 0 0 1) 1 = 0"
    by (simp add: omega_rad_def e magnitude_origin)
  have nu: "nu_rad (Vector3D 1 0 0) (Vector3D 0 0 1) 1 = 0"
    by (simp add: nu_rad_def e magnitude_origin)
  have c: "calculate_orbital_elements (Vector3D 1 0 0) (Vector3D 0 0 1) (1 / G) =
     Inr \<lparr>semi_major_axis = 1, eccentricity = 0, inclination = 90,
          longitude_of_ascending_node = 0, argument_of_periapsis = 0, true_anomaly = 0,
          period = Finite (2 * pi), periapsis = Some 1, apoapsis = Some 1\<rparr>"
    by (simp add: calculate_orbital_elements_def G_nonzero magnitude_axis e magnitude_origin
          i O w nu degrees_def)
  from orbital_elements_units [OF c] i c show ?thesis
    by (simp add: magnitude_axis)
qed

subsection \<open>Predicting a position\<close>

lemma lookup_upd:
  "lookup (d(k \<mapsto> v)) k' = (if k' = k then Inr v else lookup d k')"
  by (simp add: lookup_def)

text \<open>
  C7. For every dictionary of elements, every time and every central mass, the result of
  \<^verbatim>\<open>predict_position_from_elements\<close> is the same whatever the entry
  \<^verbatim>\<open>argument_of_periapsis\<close> holds: the function reads the entry and never uses it.
  (The rotation by the ascending node is applied: at 90 degrees the point of the orbit
  on the x axis is returned on the y axis.)
\<close>

theorem predict_position_ignores_argument_of_periapsis:
  "predict_position_from_elements (elements(''argument_of_periapsis'' \<mapsto> w1)) t sun_mass =
   predict_position_from_elements (elements(''argument_of_periapsis'' \<mapsto> w2)) t sun_mass"
  by (simp add: predict_position_from_elements_def lookup_upd Let_def
           split: sum.splits)

theorem predict_position_ignores_argument_of_periapsis_witness:
  "predict_position_from_elements (demo_elements(''argument_of_periapsis'' \<mapsto> 0)) 0 1 =
     Inr (Vector3D 0 1 0) \<and>
   predict_position_from_elements (demo_elements(''argument_of_periapsis'' \<mapsto> 45)) 0 1 =
     Inr (Vector3D 0 1 0)"
proof -
  have "predict_position_from_elements (demo_elements(''argument_of_periapsis'' \<mapsto> 0)) 0 1 =
     Inr (Vector3D 0 1 0)"
    by (simp add: predict_position_from_elements_def lookup_def demo_elements_def Let_def
          kepler_equation_solver_def arctan2_def radians_def)
  with predict_position_ignores_argument_of_periapsis [of demo_elements 45 0 1 0]
  show ?thesis by simp
qed

subsection \<open>Which positions an acceleration reads\<close>

lemma demo_fields:
  "bodies demo_simulator = [0, 1]" "sun demo_simulator = 0" "is_running demo_simulator"
  "time_step demo_simulator = 1" "speed_multiplier demo_simulator = 1"
  "max_trajectory_points demo_simulator = 1000"
  "objects demo_simulator = [0 \<mapsto> create_sun, 1 \<mapsto> demo_probe]"
  by (simp_all add: demo_simulator_def start_def add_body_def init_simulator_def Let_def
        demo_probe_def)

lemma mu_sun_large: "4 < G * SOLAR_MASS"
  by (simp add: G_def SOLAR_MASS_def)

text \<open>The pull of the Sun, at the origin, on a body on the x axis.\<close>

lemma force_toward_sun_on_axis:
  assumes "position b = Vector3D c 0 0" and "1 / 10 ^ 6 \<le> \<bar>c\<bar>"
  shows "calculate_gravitational_force b create_sun =
           Vector3D (- c / \<bar>c\<bar> * (G * mass b * SOLAR_MASS / (\<bar>c\<bar> * \<bar>c\<bar>))) 0 0"
proof -
  have "vsub (position create_sun) (position b) = Vector3D (- c) 0 0"
    by (simp add: assms create_sun_def new_body_def vsub_def)
  moreover have "magnitude (Vector3D (- c) 0 0) = \<bar>c\<bar>"
    by (simp add: magnitude_axis)
  moreover from assms(2) have "\<not> \<bar>c\<bar> < 1 / 10 ^ 6" "\<bar>c\<bar> \<noteq> 0" by auto
  ultimately show ?thesis
    by (simp add: calculate_gravitational_force_def Let_def normalize_vec_def vtruediv_def
          vmul_def create_sun_def new_body_def)
qed

lemma acceleration_toward_sun_on_axis:
  assumes "h 0 = Some create_sun" and "position (deref h 1) = Vector3D c 0 0"
    and "1 / 10 ^ 6 \<le> \<bar>c\<bar>" and "mass (deref h 1) = 1"
  shows "calculate_acceleration h 1 [0, 1] =
           Inr (Vector3D (- c / \<bar>c\<bar> * (G * SOLAR_MASS / (\<bar>c\<bar> * \<bar>c\<bar>))) 0 0,
                h(1 \<mapsto> (deref h 1)
                   \<lparr>acceleration := Vector3D (- c / \<bar>c\<bar> * (G * SOLAR_MASS / (\<bar>c\<bar> * \<bar>c\<bar>))) 0 0\<rparr>))"
proof -
  have "deref h 0 = create_sun"
    using assms(1) by (simp add: deref_def)
  then have "sum_forces h 1 [0, 1] (Vector3D 0 0 0) =
          Vector3D (- c / \<bar>c\<bar> * (G * SOLAR_MASS / (\<bar>c\<bar> * \<bar>c\<bar>))) 0 0"
    using force_toward_sun_on_axis [OF assms(2,3)] assms(4)
    by (simp add: vadd_def)
  then show ?thesis
    using assms(4) by (simp add: calculate_acceleration_def Let_def vtruediv_def)
qed


lemma verlet_body_acceleration:
  assumes "verlet_body dt maxp bs h body = (None, h')"
  shows "\<exists>h2. calculate_acceleration (advance_position dt h body) body bs =
               Inr (acceleration (deref h' body), h2)"
  using assms
  by (auto simp: verlet_body_def Let_def deref_upd
           split: sum.splits prod.splits if_splits list.splits
           dest!: calculate_acceleration_Inr)

lemma accel_loop_value:
  "accel_loop sn bs h xs = (None, h1) \<Longrightarrow> b \<in> set xs \<Longrightarrow> b \<noteq> sn \<Longrightarrow>
     \<exists>h'. calculate_acceleration h b bs = Inr (acceleration (deref h1 b), h')"
proof (induction xs arbitrary: h)
  case Nil
  then show ?case by simp
next
  case (Cons body rest)
  show ?case
  proof (cases "body = sn")
    case True
    with Cons show ?thesis by auto
  next
    case False
    from Cons.prems(1) False obtain acc ha
      where c: "calculate_acceleration h body bs = Inr (acc, ha)"
        and loop: "accel_loop sn bs ha rest = (None, h1)"
      by (auto split: sum.splits)
    from c have ha: "ha = h(body \<mapsto> (deref h body)\<lparr>acceleration := acc\<rparr>)"
      using calculate_acceleration_Inr by blast
    have same: "position (deref ha x) = position (deref h x)" "mass (deref ha x) = mass (deref h x)"
      for x by (simp_all add: ha deref_upd)
    have cong: "calculate_acceleration ha b bs = Inr (v, hb) \<Longrightarrow>
                \<exists>h'. calculate_acceleration h b bs = Inr (v, h')" for v hb
      using sum_forces_cong [of ha h b bs "Vector3D 0 0 0", OF same]
      by (auto simp: calculate_acceleration_def Let_def same split: if_splits)
    show ?thesis
    proof (cases "b \<in> set rest")
      case True
      from Cons.IH [OF loop True Cons.prems(3)] cong show ?thesis by blast
    next
      case False
      with Cons.prems(2) have b: "b = body" by simp
      from loop False have "h1 b = ha b" by (simp add: accel_loop_other)
      then have "acceleration (deref h1 b) = acc"
        by (simp add: deref_def ha b)
      with c b show ?thesis by blast
    qed
  qed
qed

lemma demo_first_evaluation:
  "calculate_acceleration (objects demo_simulator) 1 [0, 1] =
     Inr (Vector3D (- (G * SOLAR_MASS)) 0 0, demo_store1)"
proof -
  have "calculate_acceleration (objects demo_simulator) 1 [0, 1] =
          Inr (Vector3D (- 1 / \<bar>1\<bar> * (G * SOLAR_MASS / (\<bar>1\<bar> * \<bar>1\<bar>))) 0 0,
               (objects demo_simulator)(1 \<mapsto> (deref (objects demo_simulator) 1)
                 \<lparr>acceleration := Vector3D (- 1 / \<bar>1\<bar> * (G * SOLAR_MASS / (\<bar>1\<bar> * \<bar>1\<bar>))) 0 0\<rparr>))"
    by (rule acceleration_toward_sun_on_axis)
       (simp_all add: demo_fields deref_def demo_probe_def new_body_def)
  then show ?thesis
    by (simp add: demo_store1_def demo_fields deref_def)
qed

lemma demo_first_loop:
  "accel_loop 0 [0, 1] (objects demo_simulator) [0, 1] = (None, demo_store1)"
  using demo_first_evaluation by simp

lemma demo_advanced:
  "position (deref (advance_position 1 demo_store1 1) 1) = Vector3D (1 - G * SOLAR_MASS / 2) 0 0"
  by (simp add: advance_position_def demo_store1_def deref_def demo_fields demo_probe_def
        new_body_def half_velocity_of_def vadd_def vmul_def)

lemma demo_second_evaluation:
  "\<exists>h2. calculate_acceleration (advance_position 1 demo_store1 1) 1 [0, 1] =
     Inr (Vector3D (G * SOLAR_MASS / (G * SOLAR_MASS / 2 - 1)\<^sup>2) 0 0, h2)"
proof -
  let ?c = "1 - G * SOLAR_MASS / 2"
  let ?h = "advance_position 1 demo_store1 1"
  have neg: "?c < 0" and ab: "\<bar>?c\<bar> = G * SOLAR_MASS / 2 - 1"
    using mu_sun_large by simp_all
  have far: "1 / 10 ^ 6 \<le> \<bar>?c\<bar>"
    using mu_sun_large by simp
  have "calculate_acceleration ?h 1 [0, 1] =
          Inr (Vector3D (- ?c / \<bar>?c\<bar> * (G * SOLAR_MASS / (\<bar>?c\<bar> * \<bar>?c\<bar>))) 0 0,
               ?h(1 \<mapsto> (deref ?h 1)
                 \<lparr>acceleration := Vector3D (- ?c / \<bar>?c\<bar> * (G * SOLAR_MASS / (\<bar>?c\<bar> * \<bar>?c\<bar>))) 0 0\<rparr>))"
  proof (rule acceleration_toward_sun_on_axis)
    show "?h 0 = Some create_sun"
      by (simp add: advance_position_def demo_store1_def demo_fields)
    show "position (deref ?h 1) = Vector3D ?c 0 0" by (rule demo_advanced)
    show "1 / 10 ^ 6 \<le> \<bar>?c\<bar>" by (rule far)
    show "mass (deref ?h 1) = 1"
      by (simp add: advance_position_def demo_store1_def deref_def demo_probe_def new_body_def)
  qed
  moreover have "- ?c / \<bar>?c\<bar> = 1"
    using neg by (simp only: ab) (simp add: field_simps)
  moreover have "\<bar>?c\<bar> * \<bar>?c\<bar> = (G * SOLAR_MASS / 2 - 1)\<^sup>2"
    by (simp only: ab power2_eq_square)
  ultimately show ?thesis by (simp only:) simp
qed


lemma demo_anchored: "anchored demo_simulator"
  by (rule reachable_anchored) (simp add: demo_simulator_def reachable.intros)

lemma demo_step_completes: "fst (step demo_simulator) = None"
  by (rule step_completes [OF demo_anchored])
     (auto simp: demo_fields deref_def demo_probe_def new_body_def)

lemma demo_step_acceleration:
  "acceleration (deref (objects (snd (step demo_simulator))) 1) =
     Vector3D (G * SOLAR_MASS / (G * SOLAR_MASS / 2 - 1)\<^sup>2) 0 0"
proof -
  have run: "is_running demo_simulator" by (rule demo_fields)
  from run show ?thesis
  proof (cases rule: step_running_cases)
    case (raise1 e1 h1)
    with demo_step_completes show ?thesis by simp
  next
    case (raise2 h1 e2 h2)
    with demo_step_completes show ?thesis by simp
  next
    case (finish h1 h2)
    from finish(1) have "accel_loop 0 [0, 1] (objects demo_simulator) [0, 1] = (None, h1)"
      by (simp add: demo_fields(1,2))
    with demo_first_loop have h1: "h1 = demo_store1" by simp
    from finish(2) have "verlet_loop 1 1000 0 [0, 1] demo_store1 [0, 1] = (None, h2)"
      by (simp only: h1 demo_fields) simp
    then have vb: "verlet_body 1 1000 [0, 1] demo_store1 1 = (None, h2)"
      by (auto split: prod.splits option.splits)
    from finish(3) have "objects (snd (step demo_simulator)) = h2"
      using store_state_fields(1) [OF surjective_pairing,
              of "demo_simulator\<lparr>objects := h2,
                    time := time demo_simulator +
                            time_step demo_simulator * speed_multiplier demo_simulator\<rparr>"]
      by simp
    with verlet_body_acceleration [OF vb] demo_second_evaluation show ?thesis
      by auto
  qed
qed

text \<open>
  C1, as stated, fails. In a step of \<open>demo_simulator\<close> the body starts at \<open>(1, 0, 0)\<close>, and
  an evaluation on the positions of the start of the step gives \<open>(- G M, 0, 0)\<close>. The
  second loop first moves the body to \<open>(1 - G M / 2, 0, 0)\<close> and then calls
  \<^verbatim>\<open>calculate_acceleration\<close> on that store: the acceleration the step leaves on the body
  is the one at the advanced position, beyond the Sun and of the opposite sign.
\<close>

theorem step_reads_advanced_position_counterexample:
  "is_running demo_simulator \<and> fst (step demo_simulator) = None \<and>
   position (deref (objects demo_simulator) 1) = Vector3D 1 0 0 \<and>
   calculate_acceleration (objects demo_simulator) 1 (bodies demo_simulator) =
     Inr (Vector3D (- (G * SOLAR_MASS)) 0 0, demo_store1) \<and>
   position (deref (advance_position
       (time_step demo_simulator * speed_multiplier demo_simulator) demo_store1 1) 1) =
     Vector3D (1 - G * SOLAR_MASS / 2) 0 0 \<and>
   position (deref (advance_position
       (time_step demo_simulator * speed_multiplier demo_simulator) demo_store1 1) 1) \<noteq>
     position (deref (objects demo_simulator) 1) \<and>
   acceleration (deref (objects (snd (step demo_simulator))) 1) =
     Vector3D (G * SOLAR_MASS / (G * SOLAR_MASS / 2 - 1)\<^sup>2) 0 0 \<and>
   acceleration (deref (objects (snd (step demo_simulator))) 1) \<noteq>
     Vector3D (- (G * SOLAR_MASS)) 0 0"
proof -
  have p0: "position (deref (objects demo_simulator) 1) = Vector3D 1 0 0"
    by (simp add: demo_fields deref_def demo_probe_def new_body_def)
  have c0: "calculate_acceleration (objects demo_simulator) 1 (bodies demo_simulator) =
     Inr (Vector3D (- (G * SOLAR_MASS)) 0 0, demo_store1)"
    using demo_first_evaluation by (simp add: demo_fields(1))
  have "0 < G * SOLAR_MASS" "G * SOLAR_MASS / 2 - 1 \<noteq> 0"
    using mu_sun_large by linarith+
  then have "0 < G * SOLAR_MASS / (G * SOLAR_MASS / 2 - 1)\<^sup>2"
    by (intro divide_pos_pos) simp_all
  moreover have "- (G * SOLAR_MASS) < 0"
    using mu_sun_large by linarith
  ultimately have ne: "G * SOLAR_MASS / (G * SOLAR_MASS / 2 - 1)\<^sup>2 \<noteq> - (G * SOLAR_MASS)"
    by linarith
  have "1 - G * SOLAR_MASS / 2 \<noteq> 1"
    using mu_sun_large by linarith
  with p0 c0 ne demo_advanced demo_step_acceleration demo_step_completes demo_fields(3,4,5)
  show ?thesis by simp
qed

lemma accel_loop_append:
  "accel_loop sn bs h (xs @ ys) =
     (case accel_loop sn bs h xs of
        (Some err, h') \<Rightarrow> (Some err, h')
      | (None, h') \<Rightarrow> accel_loop sn bs h' ys)"
  by (induction xs arbitrary: h) (auto split: sum.splits prod.splits option.splits)

lemma verlet_loop_append:
  "verlet_loop dt maxp sn bs h (xs @ ys) =
     (case verlet_loop dt maxp sn bs h xs of
        (Some err, h') \<Rightarrow> (Some err, h')
      | (None, h') \<Rightarrow> verlet_loop dt maxp sn bs h' ys)"
  by (induction xs arbitrary: h) (auto split: prod.splits option.splits)

lemma calculate_acceleration_cong:
  assumes "\<And>x. position (deref h' x) = position (deref h x)"
    and "\<And>x. mass (deref h' x) = mass (deref h x)"
  shows "map_sum id fst (calculate_acceleration h' b bs) =
         map_sum id fst (calculate_acceleration h b bs)"
  using sum_forces_cong [of h' h b bs "Vector3D 0 0 0", OF assms]
  by (simp add: calculate_acceleration_def Let_def assms)

lemma verlet_body_position:
  assumes "verlet_body dt maxp bs h body = (None, h')"
  shows "position (deref h' body) = position (deref (advance_position dt h body) body)"
  using assms
  by (auto simp: verlet_body_def Let_def deref_upd
           split: sum.splits prod.splits if_splits list.splits
           dest!: calculate_acceleration_Inr)

text \<open>
  C1, amended. For every reachable state and every call of \<^verbatim>\<open>step\<close> while
  \<^verbatim>\<open>is_running\<close> is true, every acceleration evaluation of the first loop reads the
  position of every body as it was when the step began: when the loop comes to a body,
  no position in the store has changed, and the evaluation gives what it gives on the
  store of the start of the step. The second evaluation for a body, in the integration
  loop, is made after that body's own position has been advanced to
  \<open>x + (v + a dt / 2) dt\<close> and reads the advanced position; when the step returns, the
  acceleration it leaves on the body is the result of this evaluation, made on the store
  that holds the body's new position.
\<close>

theorem step_acceleration_reads:
  assumes "reachable s" and "is_running s"
    and "bodies s = before @ b # after" and "b \<noteq> sun s"
  shows "(\<forall>hk. accel_loop (sun s) (bodies s) (objects s) before = (None, hk) \<longrightarrow>
            accel_loop (sun s) (bodies s) (objects s) (bodies s) =
              (case calculate_acceleration hk b (bodies s) of
                 Inl err \<Rightarrow> (Some err, hk)
               | Inr (acc, h') \<Rightarrow> accel_loop (sun s) (bodies s) h' after) \<and>
            (\<forall>x. position (deref hk x) = position (deref (objects s) x)) \<and>
            map_sum id fst (calculate_acceleration hk b (bodies s)) =
              map_sum id fst (calculate_acceleration (objects s) b (bodies s))) \<and>
         (\<forall>h1 hk.
            accel_loop (sun s) (bodies s) (objects s) (bodies s) = (None, h1) \<and>
            verlet_loop (time_step s * speed_multiplier s) (max_trajectory_points s) (sun s)
              (bodies s) h1 before = (None, hk) \<longrightarrow>
            verlet_loop (time_step s * speed_multiplier s) (max_trajectory_points s) (sun s)
              (bodies s) h1 (bodies s) =
              (case verlet_body (time_step s * speed_multiplier s) (max_trajectory_points s)
                      (bodies s) hk b of
                 (Some err, h') \<Rightarrow> (Some err, h')
               | (None, h') \<Rightarrow>
                   verlet_loop (time_step s * speed_multiplier s) (max_trajectory_points s)
                     (sun s) (bodies s) h' after) \<and>
            position (deref (advance_position (time_step s * speed_multiplier s) hk b) b) =
              vadd (position (deref (objects s) b))
                (vmul (vadd (velocity (deref (objects s) b))
                         (vmul (acceleration (deref h1 b))
                            (time_step s * speed_multiplier s / 2)))
                   (time_step s * speed_multiplier s)) \<and>
            (\<forall>h'. verlet_body (time_step s * speed_multiplier s) (max_trajectory_points s)
                    (bodies s) hk b = (None, h') \<longrightarrow>
                  (\<exists>h2. calculate_acceleration
                          (advance_position (time_step s * speed_multiplier s) hk b) b
                          (bodies s) = Inr (acceleration (deref h' b), h2)))) \<and>
         (fst (step s) = None \<longrightarrow>
            (\<exists>h1 hk h' h2.
               accel_loop (sun s) (bodies s) (objects s) (bodies s) = (None, h1) \<and>
               verlet_loop (time_step s * speed_multiplier s) (max_trajectory_points s)
                 (sun s) (bodies s) h1 before = (None, hk) \<and>
               calculate_acceleration (objects s) b (bodies s) =
                 Inr (acceleration (deref h1 b), h') \<and>
               calculate_acceleration
                 (advance_position (time_step s * speed_multiplier s) hk b) b (bodies s) =
                 Inr (acceleration (deref (objects (snd (step s))) b), h2) \<and>
               position (deref (advance_position (time_step s * speed_multiplier s) hk b) b) =
                 position (deref (objects (snd (step s))) b) \<and>
               position (deref (objects (snd (step s))) b) =
                 vadd (position (deref (objects s) b))
                   (vmul (vadd (velocity (deref (objects s) b))
                            (vmul (acceleration (deref h1 b))
                               (time_step s * speed_multiplier s / 2)))
                      (time_step s * speed_multiplier s))))"
proof -
  let ?sn = "sun s" and ?bs = "bodies s" and ?h0 = "objects s"
  let ?dt = "time_step s * speed_multiplier s" and ?maxp = "max_trajectory_points s"
  from assms(1) have "anchored s" by (rule reachable_anchored)
  then have "distinct (bodies s)" by (simp add: anchored_def)
  with assms(3) have nb: "b \<notin> set before" and na: "b \<notin> set after" by auto
  from assms(3) have mem: "b \<in> set (bodies s)" by simp

  have first: "accel_loop ?sn ?bs ?h0 ?bs =
              (case calculate_acceleration hk b ?bs of
                 Inl err \<Rightarrow> (Some err, hk)
               | Inr (acc, h') \<Rightarrow> accel_loop ?sn ?bs h' after) \<and>
            (\<forall>x. position (deref hk x) = position (deref ?h0 x)) \<and>
            map_sum id fst (calculate_acceleration hk b ?bs) =
              map_sum id fst (calculate_acceleration ?h0 b ?bs)"
    if hk: "accel_loop ?sn ?bs ?h0 before = (None, hk)" for hk
  proof -
    have "accel_loop ?sn ?bs ?h0 (before @ b # after) = accel_loop ?sn ?bs hk (b # after)"
      by (simp add: accel_loop_append hk)
    then have "accel_loop ?sn ?bs ?h0 ?bs =
              (case calculate_acceleration hk b ?bs of
                 Inl err \<Rightarrow> (Some err, hk)
               | Inr (acc, h') \<Rightarrow> accel_loop ?sn ?bs h' after)"
      using assms(4) by (simp add: assms(3) [symmetric])
    moreover have "\<forall>x. position (deref hk x) = position (deref ?h0 x)"
      using accel_loop_keeps(1) [OF hk] by simp
    moreover have "map_sum id fst (calculate_acceleration hk b ?bs) =
              map_sum id fst (calculate_acceleration ?h0 b ?bs)"
      by (rule calculate_acceleration_cong)
         (simp_all add: accel_loop_keeps(1,3) [OF hk])
    ultimately show ?thesis by simp
  qed

  have adv: "position (deref (advance_position ?dt hk b) b) =
              vadd (position (deref ?h0 b))
                (vmul (vadd (velocity (deref ?h0 b)) (vmul (acceleration (deref h1 b)) (?dt / 2)))
                   ?dt)"
    if h1: "accel_loop ?sn ?bs ?h0 ?bs = (None, h1)"
      and hk: "verlet_loop ?dt ?maxp ?sn ?bs h1 before = (None, hk)" for h1 hk
  proof -
    from hk nb have "hk b = h1 b" by (simp add: verlet_loop_other)
    then have "deref hk b = deref h1 b" by (simp add: deref_def)
    then show ?thesis
      by (simp add: deref_advance_position half_velocity_of_def accel_loop_keeps(1,2) [OF h1])
  qed

  have second: "verlet_loop ?dt ?maxp ?sn ?bs h1 ?bs =
              (case verlet_body ?dt ?maxp ?bs hk b of
                 (Some err, h') \<Rightarrow> (Some err, h')
               | (None, h') \<Rightarrow> verlet_loop ?dt ?maxp ?sn ?bs h' after)"
    if hk: "verlet_loop ?dt ?maxp ?sn ?bs h1 before = (None, hk)" for h1 hk
  proof -
    have "verlet_loop ?dt ?maxp ?sn ?bs h1 (before @ b # after) =
          verlet_loop ?dt ?maxp ?sn ?bs hk (b # after)"
      by (simp add: verlet_loop_append hk)
    then show ?thesis
      using assms(4) by (simp add: assms(3) [symmetric])
  qed

  have returned: "\<exists>h1 hk h' h2.
               accel_loop ?sn ?bs ?h0 ?bs = (None, h1) \<and>
               verlet_loop ?dt ?maxp ?sn ?bs h1 before = (None, hk) \<and>
               calculate_acceleration ?h0 b ?bs = Inr (acceleration (deref h1 b), h') \<and>
               calculate_acceleration (advance_position ?dt hk b) b ?bs =
                 Inr (acceleration (deref (objects (snd (step s))) b), h2) \<and>
               position (deref (advance_position ?dt hk b) b) =
                 position (deref (objects (snd (step s))) b) \<and>
               position (deref (objects (snd (step s))) b) =
                 vadd (position (deref ?h0 b))
                   (vmul (vadd (velocity (deref ?h0 b))
                            (vmul (acceleration (deref h1 b)) (?dt / 2))) ?dt)"
    if ok: "fst (step s) = None"
    using assms(2)
  proof (cases rule: step_running_cases)
    case (raise1 e1 h1)
    with ok show ?thesis by simp
  next
    case (raise2 h1 e2 h2)
    with ok show ?thesis by simp
  next
    case (finish h1 h2)
    from finish(3) have fin: "objects (snd (step s)) = h2"
      using store_state_fields(1) [OF surjective_pairing,
              of "s\<lparr>objects := h2, time := time s + time_step s * speed_multiplier s\<rparr>"]
      by simp
    obtain ek hk where hk: "verlet_loop ?dt ?maxp ?sn ?bs h1 before = (ek, hk)"
      by (cases "verlet_loop ?dt ?maxp ?sn ?bs h1 before")
    from finish(2) have whole: "verlet_loop ?dt ?maxp ?sn ?bs h1 (before @ b # after) = (None, h2)"
      by (simp add: assms(3) [symmetric])
    from whole hk have ek: "ek = None"
      by (cases ek) (simp_all add: verlet_loop_append)
    with whole hk have rest: "verlet_loop ?dt ?maxp ?sn ?bs hk (b # after) = (None, h2)"
      by (simp add: verlet_loop_append)
    obtain eb hb where vb: "verlet_body ?dt ?maxp ?bs hk b = (eb, hb)"
      by (cases "verlet_body ?dt ?maxp ?bs hk b")
    from rest vb assms(4) have eb: "eb = None"
      by (cases eb) simp_all
    with rest vb assms(4) have tail: "verlet_loop ?dt ?maxp ?sn ?bs hb after = (None, h2)"
      by simp
    from tail na have "h2 b = hb b" by (simp add: verlet_loop_other)
    then have same: "deref h2 b = deref hb b" by (simp add: deref_def)
    from vb eb have vbN: "verlet_body ?dt ?maxp ?bs hk b = (None, hb)" by simp
    from verlet_body_acceleration [OF vbN] obtain h2' where
      ev2: "calculate_acceleration (advance_position ?dt hk b) b ?bs =
              Inr (acceleration (deref hb b), h2')" by blast
    from accel_loop_value [OF finish(1) mem assms(4)] obtain h' where
      ev1: "calculate_acceleration ?h0 b ?bs = Inr (acceleration (deref h1 b), h')" by blast
    have p: "position (deref hb b) = position (deref (advance_position ?dt hk b) b)"
      using vbN by (rule verlet_body_position)
    from hk ek have hkN: "verlet_loop ?dt ?maxp ?sn ?bs h1 before = (None, hk)" by simp
    note a = adv [OF finish(1) hkN]
    from finish(1) hkN ev1 ev2 p a show ?thesis
      unfolding fin same by (intro exI [of _ h1] exI [of _ hk] exI [of _ h'] exI [of _ h2']) simp
  qed

  from first adv second verlet_body_acceleration returned show ?thesis
    by (intro conjI allI impI) blast+
qed

theorem step_acceleration_reads_witness:
  "reachable demo_simulator \<and> is_running demo_simulator \<and>
   bodies demo_simulator = [0] @ 1 # [] \<and> 1 \<noteq> sun demo_simulator \<and>
   fst (step demo_simulator) = None \<and>
   accel_loop (sun demo_simulator) (bodies demo_simulator) (objects demo_simulator) [0] =
     (None, objects demo_simulator) \<and>
   accel_loop (sun demo_simulator) (bodies demo_simulator) (objects demo_simulator)
     (bodies demo_simulator) = (None, demo_store1) \<and>
   verlet_loop (time_step demo_simulator * speed_multiplier demo_simulator)
     (max_trajectory_points demo_simulator) (sun demo_simulator) (bodies demo_simulator)
     demo_store1 [0] = (None, demo_store1) \<and>
   position (deref (objects demo_simulator) 1) = Vector3D 1 0 0 \<and>
   position (deref (objects (snd (step demo_simulator))) 1) =
     Vector3D (1 - G * SOLAR_MASS / 2) 0 0"
proof -
  have r: "reachable demo_simulator"
    unfolding demo_simulator_def by (intro reachable.intros)
  have bs: "bodies demo_simulator = [0] @ 1 # []" and ns: "1 \<noteq> sun demo_simulator"
    by (simp_all add: demo_fields)
  have l0: "accel_loop (sun demo_simulator) (bodies demo_simulator) (objects demo_simulator) [0] =
     (None, objects demo_simulator)"
    by (simp add: demo_fields(2))
  have l1: "accel_loop (sun demo_simulator) (bodies demo_simulator) (objects demo_simulator)
     (bodies demo_simulator) = (None, demo_store1)"
    using demo_first_loop by (simp add: demo_fields(1,2))
  have l2: "verlet_loop (time_step demo_simulator * speed_multiplier demo_simulator)
     (max_trajectory_points demo_simulator) (sun demo_simulator) (bodies demo_simulator)
     demo_store1 [0] = (None, demo_store1)"
    by (simp add: demo_fields(2))
  have p0: "position (deref (objects demo_simulator) 1) = Vector3D 1 0 0"
    and v0: "velocity (deref (objects demo_simulator) 1) = Vector3D 0 0 0"
    and a1: "acceleration (deref demo_store1 1) = Vector3D (- (G * SOLAR_MASS)) 0 0"
    by (simp_all add: demo_fields(7) demo_store1_def deref_def demo_probe_def new_body_def)
  from step_acceleration_reads [OF r demo_fields(3) bs ns] demo_step_completes
  obtain h1 hk where
    "accel_loop (sun demo_simulator) (bodies demo_simulator) (objects demo_simulator)
       (bodies demo_simulator) = (None, h1)"
    and fin: "position (deref (objects (snd (step demo_simulator))) 1) =
       vadd (position (deref (objects demo_simulator) 1))
         (vmul (vadd (velocity (deref (objects demo_simulator) 1))
                  (vmul (acceleration (deref h1 1))
                     (time_step demo_simulator * speed_multiplier demo_simulator / 2)))
            (time_step demo_simulator * speed_multiplier demo_simulator))"
    by blast
  with l1 have "h1 = demo_store1" by simp
  with fin p0 v0 a1 have "position (deref (objects (snd (step demo_simulator))) 1) =
     Vector3D (1 - G * SOLAR_MASS / 2) 0 0"
    by (simp add: demo_fields(4,5) vadd_def vmul_def)
  with r bs ns l0 l1 l2 p0 demo_step_completes demo_fields(3) show ?thesis
    by simp
qed

end
